theory Spec2Isabelle
  imports Complex_Main "HOL-Library.AList"
begin

section \<open>Python values and option bags\<close>

text \<open>
  The trace constructors of the charting library that \<open>plot\<close> can call: \<open>go.Ohlc\<close>,
  \<open>go.Candlestick\<close>, \<open>go.Bar\<close>, and any other trace class a caller passes as
  \<open>plot_type\<close> (identified by its name).
\<close>

datatype trace_type = Ohlc | Candlestick | Bar | Custom string

text \<open>
  The Python values that travel through keyword arguments. A \<open>dict\<close> is an association
  list in insertion order; a float literal or a price is an exact real number (no NaN, no
  rounding); a trace class can itself be a value.
\<close>

datatype pyval =
    PNone
  | PBool bool
  | PInt int
  | PNum real
  | PStr string
  | PType trace_type
  | PList "pyval list"
  | PDict "(string \<times> pyval) list"

type_synonym kwargs = "(string \<times> pyval) list"

text \<open>
  Modelled from the spec: \<open>merge_dicts\<close> of \<open>vectorbt.utils.config\<close> is imported by
  \<open>ohlcv_accessors.py\<close> but its source is missing. Section 4.6 of the specification:
  for every key present in \<open>override\<close>, if both \<open>base[key]\<close> and \<open>override[key]\<close> are
  nested bags, merge recursively; otherwise the value from \<open>override\<close> replaces
  \<open>base\<close>'s; keys present only in \<open>base\<close> are preserved; the result is a new bag.
\<close>

fun merge_dicts :: "kwargs \<Rightarrow> kwargs \<Rightarrow> kwargs" where
  "merge_dicts base [] = base"
| "merge_dicts base ((k, v) # override) =
     merge_dicts
       (AList.update k
          (case (map_of base k, v) of
             (Some (PDict b), PDict ov) \<Rightarrow> PDict (merge_dicts b ov)
           | _ \<Rightarrow> v)
          base)
       override"


section \<open>Labels, frames and settings\<close>

text \<open>
  \<open>str.lower\<close> on the ASCII labels of a frame: the letters \<open>A\<close> to \<open>Z\<close> (codes 65 to 90)
  move to \<open>a\<close> to \<open>z\<close>, every other character stays.
\<close>

definition lower_char :: "char \<Rightarrow> char" where
  "lower_char c =
     (let n = (of_char c :: nat) in if 65 \<le> n \<and> n \<le> 90 then char_of (n + 32) else c)"

definition lower :: "string \<Rightarrow> string" where
  "lower s = map lower_char s"

text \<open>
  \<open>list.index\<close>: the position of the first element equal to \<open>x\<close>; Python raises
  \<open>ValueError\<close> when there is none, which is \<open>None\<close> here and becomes an error in
  \<open>column_index\<close>.
\<close>

fun list_index :: "'a list \<Rightarrow> 'a \<Rightarrow> nat option" where
  "list_index [] x = None"
| "list_index (y # ys) x = (if y = x then Some 0 else map_option Suc (list_index ys x))"

text \<open>
  The exceptions of \<open>plot\<close>. \<open>MissingColumnError\<close> is the \<open>ValueError\<close> that
  \<open>list.index\<close> raises (lines 98 to 101 and 165), with the label looked for;
  \<open>InvalidPlotTypeError\<close> is the \<open>ValueError\<close> of line 140; \<open>KeyError\<close> is a role
  missing from the \<open>column_names\<close> dictionary.
\<close>

datatype error = KeyError string | MissingColumnError string | InvalidPlotTypeError

text \<open>
  A data frame: the index, and the columns in order, each a label with its values
  (\<open>iloc[:, j]\<close> is the values of the column at position \<open>j\<close>). In a frame every column
  is as long as the index (\<open>wf_frame\<close>).
\<close>

record frame =
  index :: "pyval list"
  cols :: "(string \<times> real list) list"

definition columns :: "frame \<Rightarrow> string list" where
  "columns df = map fst (cols df)"

definition iloc :: "frame \<Rightarrow> nat \<Rightarrow> real list" where
  "iloc df j = snd (cols df ! j)"

definition wf_frame :: "frame \<Rightarrow> bool" where
  "wf_frame df = list_all (\<lambda>c. length (snd c) = length (index df)) (cols df)"

record accessor =
  obj :: frame
  column_names :: "(string \<rightharpoonup> string) option"

text \<open>
  \<open>plot_type\<close> is \<open>None\<close>, a string, or a trace class
  (\<open>tp.Union[None, str, tp.BaseTraceType]\<close>).
\<close>

datatype plot_type = PlotName string | PlotTrace trace_type

record color_schema =
  increasing :: pyval
  decreasing :: pyval
  gray :: pyval

text \<open>
  What \<open>plot\<close> reads from \<open>vectorbt._settings\<close>, whose source is missing and which is
  therefore a parameter: \<open>settings['ohlcv']['column_names']\<close>,
  \<open>settings['ohlcv']['plot_type']\<close> and \<open>settings['plotting']['color_schema']\<close>. The
  layouts that a figure has when \<open>make_figure\<close> and \<open>make_subplots\<close> return it are
  parameters as well.
\<close>

record settings =
  cfg_column_names :: "string \<rightharpoonup> string"
  cfg_plot_type :: plot_type
  cfg_color_schema :: color_schema
  figure_layout :: kwargs
  subplots_layout :: kwargs

section \<open>Figures\<close>

text \<open>
  A figure of the charting library: the subplot grid it was made with (none for a plain
  figure, which has a single plot area), its layout, and its traces in the order they
  were added, each with the keyword arguments \<open>add_trace\<close> received. A trace is the
  constructor that made it and its properties.
\<close>

record subplots =
  rows :: nat
  ncols :: nat
  shared_xaxes :: bool
  vertical_spacing :: real
  row_heights :: "real list"

record trace =
  trace_type :: trace_type
  props :: kwargs

record figure =
  grid :: "subplots option"
  layout :: kwargs
  traces :: "(trace \<times> kwargs) list"

definition panels :: "figure \<Rightarrow> nat" where
  "panels f = (case grid f of None \<Rightarrow> 1 | Some g \<Rightarrow> rows g * ncols g)"

text \<open>
  Modelled from the spec: \<open>make_figure\<close> and \<open>make_subplots\<close> of
  \<open>vectorbt.utils.figure\<close> are imported but their source is missing. Section 6: a
  figure type supporting panel allocation with shared axes and height ratios. A new
  figure has no trace; \<open>make_subplots\<close> records the grid it was asked for.
\<close>

definition make_figure :: "settings \<Rightarrow> figure" where
  "make_figure st = \<lparr>grid = None, layout = figure_layout st, traces = []\<rparr>"

definition make_subplots :: "settings \<Rightarrow> nat \<Rightarrow> nat \<Rightarrow> bool \<Rightarrow> real \<Rightarrow> real list \<Rightarrow> figure" where
  "make_subplots st r c sx vs rh =
     \<lparr>grid = Some \<lparr>rows = r, ncols = c, shared_xaxes = sx, vertical_spacing = vs,
                   row_heights = rh\<rparr>,
      layout = subplots_layout st, traces = []\<rparr>"

text \<open>
  Figures are objects: the caller and \<open>plot\<close> share them by reference. The store holds
  every figure, a reference is a position in it, and a new figure takes the next free
  position. \<open>update_layout\<close> and \<open>add_trace\<close> change the figure in place;
  \<open>update_layout\<close> and a trace's \<open>update\<close> merge the keyword arguments into what is
  there, nested bags recursively (section 6: a layout-update operation accepting a nested
  option bag).
\<close>

type_synonym store = "figure list"

definition new_figure :: "figure \<Rightarrow> store \<Rightarrow> nat \<times> store" where
  "new_figure f h = (length h, h @ [f])"

definition update_layout :: "nat \<Rightarrow> kwargs \<Rightarrow> store \<Rightarrow> store" where
  "update_layout a kw h = h[a := (h ! a)\<lparr>layout := merge_dicts (layout (h ! a)) kw\<rparr>]"

definition add_trace :: "nat \<Rightarrow> trace \<Rightarrow> kwargs \<Rightarrow> store \<Rightarrow> store" where
  "add_trace a t kw h = h[a := (h ! a)\<lparr>traces := traces (h ! a) @ [(t, kw)]\<rparr>]"

definition update :: "trace \<Rightarrow> kwargs \<Rightarrow> trace" where
  "update t kw = t\<lparr>props := merge_dicts (props t) kw\<rparr>"


section \<open>The steps of \<open>OHLCVDFAccessor.plot\<close>\<close>

text \<open>Lines 84 to 91: an option bag that was not passed is the empty bag.\<close>

definition or_empty :: "kwargs option \<Rightarrow> kwargs" where
  "or_empty kw = (case kw of None \<Rightarrow> [] | Some d \<Rightarrow> d)"

text \<open>
  Line 81: the accessor's own \<open>column_names\<close>, or the default of the settings.
\<close>

definition resolve_column_names :: "settings \<Rightarrow> accessor \<Rightarrow> (string \<rightharpoonup> string)" where
  "resolve_column_names st self =
     (case column_names self of None \<Rightarrow> cfg_column_names st | Some cn \<Rightarrow> cn)"

text \<open>Line 82: \<open>self.obj.columns.str.lower().tolist()\<close>.\<close>

definition df_column_names :: "frame \<Rightarrow> string list" where
  "df_column_names df = map lower (columns df)"

text \<open>
  Lines 92 and 93: an explicit \<open>display_volume\<close> stays; an unset one becomes
  \<open>column_names['volume'].lower() in df_column_names\<close>.
\<close>

definition resolve_display_volume ::
    "(string \<rightharpoonup> string) \<Rightarrow> string list \<Rightarrow> bool option \<Rightarrow> error + bool" where
  "resolve_display_volume names df_names display_volume =
     (case display_volume of
        None \<Rightarrow>
          (case names ''volume'' of
             None \<Rightarrow> Inl (KeyError ''volume'')
           | Some label \<Rightarrow> Inr (lower label \<in> set df_names))
      | Some b \<Rightarrow> Inr b)"

text \<open>
  Lines 94 to 96: when the volume is displayed, the placement of a trace is
  \<open>merge_dicts(dict(row=r, col=1), add_trace_kwargs)\<close>, with \<open>r\<close> 1 for the price and 2
  for the volume; otherwise it is what the caller passed.
\<close>

definition placement :: "bool \<Rightarrow> int \<Rightarrow> kwargs \<Rightarrow> kwargs" where
  "placement display_volume r add_trace_kwargs =
     (if display_volume
      then merge_dicts [(''row'', PInt r), (''col'', PInt 1)] add_trace_kwargs
      else add_trace_kwargs)"

text \<open>
  Lines 98 to 101 and 165: \<open>df_column_names.index(column_names[role].lower())\<close>.
\<close>

definition column_index ::
    "(string \<rightharpoonup> string) \<Rightarrow> string list \<Rightarrow> string \<Rightarrow> error + nat" where
  "column_index names df_names role =
     (case names role of
        None \<Rightarrow> Inl (KeyError role)
      | Some label \<Rightarrow>
          (case list_index df_names (lower label) of
             None \<Rightarrow> Inl (MissingColumnError (lower label))
           | Some i \<Rightarrow> Inr i))"

text \<open>Lines 109 to 118 and 120 to 128: the two baseline layout updates.\<close>

definition baseline_layout :: kwargs where
  "baseline_layout =
     [(''showlegend'', PBool True),
      (''xaxis'', PDict [(''rangeslider_visible'', PBool False), (''showgrid'', PBool True)]),
      (''yaxis'', PDict [(''showgrid'', PBool True)])]"

definition baseline_volume_layout :: kwargs where
  "baseline_volume_layout =
     [(''xaxis2'', PDict [(''showgrid'', PBool True)]),
      (''yaxis2'', PDict [(''showgrid'', PBool True)]),
      (''bargap'', PInt 0)]"

text \<open>
  Lines 104 to 129: a figure is made and given the baseline layout only when none was
  passed; the caller's layout is applied to the figure in both cases.
\<close>

definition set_up_figure ::
    "settings \<Rightarrow> bool \<Rightarrow> nat option \<Rightarrow> kwargs \<Rightarrow> store \<Rightarrow> nat \<times> store" where
  "set_up_figure st display_volume fig layout_kwargs h =
     (let (fig, h) =
        (case fig of
           None \<Rightarrow>
             (let (fig, h) =
                    (if display_volume
                     then new_figure (make_subplots st 2 1 True 0 [7 / 10, 3 / 10]) h
                     else new_figure (make_figure st) h);
                  h = update_layout fig baseline_layout h;
                  h = (if display_volume then update_layout fig baseline_volume_layout h
                       else h)
              in (fig, h))
         | Some fig \<Rightarrow> (fig, h))
      in (fig, update_layout fig layout_kwargs h))"

text \<open>
  Lines 130 to 142: the value passed as \<open>name\<close> and the constructor called. After line
  142 the variable \<open>plot_type\<close> is the canonical name for a string and still the trace
  class itself otherwise, and line 149 passes it as \<open>name\<close>.
\<close>

definition resolve_plot_type ::
    "settings \<Rightarrow> plot_type option \<Rightarrow> error + (pyval \<times> trace_type)" where
  "resolve_plot_type st plot_type =
     (let plot_type = (case plot_type of None \<Rightarrow> cfg_plot_type st | Some p \<Rightarrow> p) in
      case plot_type of
        PlotName s \<Rightarrow>
          if lower s = ''ohlc'' then Inr (PStr ''OHLC'', Ohlc)
          else if lower s = ''candlestick'' then Inr (PStr ''Candlestick'', Candlestick)
          else Inl InvalidPlotTypeError
      | PlotTrace t \<Rightarrow> Inr (PType t, t))"

definition series :: "real list \<Rightarrow> pyval" where
  "series xs = PList (map PNum xs)"

text \<open>Lines 143 to 160: the call of the constructor.\<close>

definition ohlc_trace ::
    "settings \<Rightarrow> trace_type \<Rightarrow> pyval \<Rightarrow> pyval list \<Rightarrow> real list \<Rightarrow> real list \<Rightarrow> real list
       \<Rightarrow> real list \<Rightarrow> trace" where
  "ohlc_trace st plot_obj name x open_s high_s low_s close_s =
     \<lparr>trace_type = plot_obj,
      props =
        [(''x'', PList x),
         (''open'', series open_s),
         (''high'', series high_s),
         (''low'', series low_s),
         (''close'', series close_s),
         (''name'', name),
         (''increasing'',
            PDict [(''line'', PDict [(''color'', increasing (cfg_color_schema st))])]),
         (''decreasing'',
            PDict [(''line'', PDict [(''color'', decreasing (cfg_color_schema st))])])]\<rparr>"

text \<open>
  Lines 167 to 170: \<open>np.empty\<close> of the volume's shape holds \<open>None\<close>, and each of the
  three assignments writes its colour where its mask is true. The masks come from
  \<open>close.values - open.values\<close>, which in a frame has the volume's length.
\<close>

definition mask_assign :: "pyval list \<Rightarrow> bool list \<Rightarrow> pyval \<Rightarrow> pyval list" where
  "mask_assign xs msk v = map2 (\<lambda>x m. if m then v else x) xs msk"

definition marker_colors :: "color_schema \<Rightarrow> real list \<Rightarrow> real list \<Rightarrow> real list \<Rightarrow> pyval list" where
  "marker_colors cs volume_s open_s close_s =
     (let delta = map2 (\<lambda>c o'. c - o') close_s open_s;
          m = replicate (length volume_s) PNone;
          m = mask_assign m (map (\<lambda>d. d > 0) delta) (increasing cs);
          m = mask_assign m (map (\<lambda>d. d = 0) delta) (gray cs);
          m = mask_assign m (map (\<lambda>d. d < 0) delta) (decreasing cs)
      in m)"

text \<open>Lines 171 to 180: the call of \<open>go.Bar\<close>.\<close>

definition volume_bar :: "pyval list \<Rightarrow> real list \<Rightarrow> pyval list \<Rightarrow> trace" where
  "volume_bar x volume_s colors =
     \<lparr>trace_type = Bar,
      props =
        [(''x'', PList x),
         (''y'', series volume_s),
         (''marker'', PDict [(''color'', PList colors), (''line_width'', PInt 0)]),
         (''opacity'', PNum (1 / 2)),
         (''name'', PStr ''Volume'')]\<rparr>"

section \<open>\<open>OHLCVDFAccessor.plot\<close>\<close>

text \<open>
  The whole method, in the order of the source. It returns the reference of the figure
  or the exception raised, and the store as it is at that moment: an exception does not
  undo the changes made before it.
\<close>

definition plot ::
    "settings \<Rightarrow> accessor \<Rightarrow> plot_type option \<Rightarrow> bool option \<Rightarrow> kwargs option \<Rightarrow> kwargs option
       \<Rightarrow> kwargs option \<Rightarrow> kwargs option \<Rightarrow> nat option \<Rightarrow> kwargs \<Rightarrow> store
       \<Rightarrow> (error + nat) \<times> store" where
  "plot st self plot_type display_volume ohlc_kwargs volume_kwargs ohlc_add_trace_kwargs
        volume_add_trace_kwargs fig layout_kwargs h =
     (let column_names = resolve_column_names st self;
          df_column_names = df_column_names (obj self);
          ohlc_kwargs = or_empty ohlc_kwargs;
          volume_kwargs = or_empty volume_kwargs;
          ohlc_add_trace_kwargs = or_empty ohlc_add_trace_kwargs;
          volume_add_trace_kwargs = or_empty volume_add_trace_kwargs
      in
      (case resolve_display_volume column_names df_column_names display_volume of
         Inl e \<Rightarrow> (Inl e, h)
       | Inr display_volume \<Rightarrow>
      (let ohlc_add_trace_kwargs = placement display_volume 1 ohlc_add_trace_kwargs;
           volume_add_trace_kwargs = placement display_volume 2 volume_add_trace_kwargs
       in
       (case column_index column_names df_column_names ''open'' of
          Inl e \<Rightarrow> (Inl e, h)
        | Inr i_open \<Rightarrow>
       (case column_index column_names df_column_names ''high'' of
          Inl e \<Rightarrow> (Inl e, h)
        | Inr i_high \<Rightarrow>
       (case column_index column_names df_column_names ''low'' of
          Inl e \<Rightarrow> (Inl e, h)
        | Inr i_low \<Rightarrow>
       (case column_index column_names df_column_names ''close'' of
          Inl e \<Rightarrow> (Inl e, h)
        | Inr i_close \<Rightarrow>
       (let open_s = iloc (obj self) i_open;
            high_s = iloc (obj self) i_high;
            low_s = iloc (obj self) i_low;
            close_s = iloc (obj self) i_close;
            (fig, h) = set_up_figure st display_volume fig layout_kwargs h
        in
        (case resolve_plot_type st plot_type of
           Inl e \<Rightarrow> (Inl e, h)
         | Inr (name, plot_obj) \<Rightarrow>
        (let ohlc = ohlc_trace st plot_obj name (index (obj self)) open_s high_s low_s close_s;
             ohlc = update ohlc ohlc_kwargs;
             h = add_trace fig ohlc ohlc_add_trace_kwargs h
         in
         if display_volume then
           (case column_index column_names df_column_names ''volume'' of
              Inl e \<Rightarrow> (Inl e, h)
            | Inr i_volume \<Rightarrow>
              (let volume_s = iloc (obj self) i_volume;
                   colors = marker_colors (cfg_color_schema st) volume_s open_s close_s;
                   bar = volume_bar (index (obj self)) volume_s colors;
                   bar = update bar volume_kwargs;
                   h = add_trace fig bar volume_add_trace_kwargs h
               in (Inr fig, h)))
         else (Inr fig, h)))))))))))"


section \<open>Shorthands and example inputs\<close>

text \<open>
  Shorthands for what \<open>plot\<close> computes on the way: the position of a role's column, the
  decision on the volume, and the two traces as they are when they are added.
\<close>

abbreviation role_index :: "settings \<Rightarrow> accessor \<Rightarrow> string \<Rightarrow> error + nat" where
  "role_index st self role \<equiv>
     column_index (resolve_column_names st self) (df_column_names (obj self)) role"

abbreviation shown :: "settings \<Rightarrow> accessor \<Rightarrow> bool option \<Rightarrow> error + bool" where
  "shown st self display_volume \<equiv>
     resolve_display_volume (resolve_column_names st self) (df_column_names (obj self))
       display_volume"

abbreviation price_trace ::
    "settings \<Rightarrow> accessor \<Rightarrow> trace_type \<Rightarrow> pyval \<Rightarrow> nat \<Rightarrow> nat \<Rightarrow> nat \<Rightarrow> nat \<Rightarrow> kwargs option
       \<Rightarrow> trace" where
  "price_trace st self plot_obj name i_open i_high i_low i_close ohlc_kwargs \<equiv>
     update
       (ohlc_trace st plot_obj name (index (obj self)) (iloc (obj self) i_open)
          (iloc (obj self) i_high) (iloc (obj self) i_low) (iloc (obj self) i_close))
       (or_empty ohlc_kwargs)"

abbreviation volume_trace ::
    "settings \<Rightarrow> accessor \<Rightarrow> nat \<Rightarrow> nat \<Rightarrow> nat \<Rightarrow> kwargs option \<Rightarrow> trace" where
  "volume_trace st self i_open i_close i_volume volume_kwargs \<equiv>
     update
       (volume_bar (index (obj self)) (iloc (obj self) i_volume)
          (marker_colors (cfg_color_schema st) (iloc (obj self) i_volume)
             (iloc (obj self) i_open) (iloc (obj self) i_close)))
       (or_empty volume_kwargs)"

text \<open>
  The settings as the library ships them, and frames to run \<open>plot\<close> on: one with every
  role (and two columns that both match \<open>Open\<close>), one without a volume column, one
  without a close column. The rows of the first have close minus open equal to 1, 0
  and -1.
\<close>

definition ex_settings :: settings where
  "ex_settings =
     \<lparr>cfg_column_names =
        [''open'' \<mapsto> ''Open'', ''high'' \<mapsto> ''High'', ''low'' \<mapsto> ''Low'',
         ''close'' \<mapsto> ''Close'', ''volume'' \<mapsto> ''Volume''],
      cfg_plot_type = PlotName ''OHLC'',
      cfg_color_schema =
        \<lparr>increasing = PStr ''green'', decreasing = PStr ''red'', gray = PStr ''silver''\<rparr>,
      figure_layout = [(''width'', PInt 700)],
      subplots_layout = [(''width'', PInt 700)]\<rparr>"

definition ex_frame :: frame where
  "ex_frame =
     \<lparr>index = [PStr ''mon'', PStr ''tue'', PStr ''wed''],
      cols =
        [(''Date'', [1, 2, 3]),
         (''OPEN'', [10, 11, 12]),
         (''Open'', [0, 0, 0]),
         (''High'', [12, 12, 13]),
         (''low'', [9, 10, 10]),
         (''cLoSe'', [11, 11, 11]),
         (''VOLUME'', [100, 200, 300]),
         (''volume'', [7, 7, 7])]\<rparr>"

definition ex_frame_no_volume :: frame where
  "ex_frame_no_volume =
     \<lparr>index = [PStr ''mon'', PStr ''tue''],
      cols =
        [(''Open'', [10, 11]), (''High'', [12, 12]), (''Low'', [9, 10]),
         (''Close'', [11, 11])]\<rparr>"

definition ex_frame_no_close :: frame where
  "ex_frame_no_close =
     \<lparr>index = [PStr ''mon'', PStr ''tue''],
      cols =
        [(''Open'', [10, 11]), (''High'', [12, 12]), (''Low'', [9, 10]),
         (''Volume'', [100, 200])]\<rparr>"

definition ex_self :: accessor where
  "ex_self = \<lparr>obj = ex_frame, column_names = None\<rparr>"

definition ex_self_no_volume :: accessor where
  "ex_self_no_volume = \<lparr>obj = ex_frame_no_volume, column_names = None\<rparr>"

definition ex_self_no_close :: accessor where
  "ex_self_no_close = \<lparr>obj = ex_frame_no_close, column_names = None\<rparr>"

text \<open>A store that already holds a figure of the caller, with a layout and a trace.\<close>

definition ex_store :: store where
  "ex_store =
     [\<lparr>grid = None,
       layout = [(''title'', PStr ''mine''), (''showlegend'', PBool False)],
       traces = [(\<lparr>trace_type = Custom ''Scatter'', props = [(''name'', PStr ''sma'')]\<rparr>, [])]\<rparr>]"

section \<open>Facts about \<open>list.index\<close> and \<open>merge_dicts\<close>\<close>

lemma list_index_None_iff: "list_index xs x = None \<longleftrightarrow> x \<notin> set xs"
  by (induction xs) auto

lemma list_index_Some_iff:
  "list_index xs x = Some i \<longleftrightarrow> i < length xs \<and> xs ! i = x \<and> (\<forall>j<i. xs ! j \<noteq> x)"
proof (induction xs arbitrary: i)
  case Nil
  show ?case by simp
next
  case (Cons y ys)
  show ?case
  proof (cases "y = x")
    case True
    then show ?thesis by (cases i) auto
  next
    case False
    show ?thesis
    proof (cases i)
      case 0
      with False show ?thesis by auto
    next
      case (Suc n)
      have "(\<forall>j<Suc n. (y # ys) ! j \<noteq> x) \<longleftrightarrow> (\<forall>j<n. ys ! j \<noteq> x)"
        using False by (auto simp: less_Suc_eq_0_disj)
      with False Suc Cons.IH [of n] show ?thesis by auto
    qed
  qed
qed

lemma map_of_merge_dicts:
  "distinct (map fst override) \<Longrightarrow>
   map_of (merge_dicts base override) k =
     (case map_of override k of
        None \<Rightarrow> map_of base k
      | Some v \<Rightarrow>
          Some (case (map_of base k, v) of
                  (Some (PDict b), PDict ov) \<Rightarrow> PDict (merge_dicts b ov)
                | _ \<Rightarrow> v))"
proof (induction override arbitrary: base)
  case Nil
  show ?case by simp
next
  case (Cons p override)
  obtain k' v' where p: "p = (k', v')" by (cases p)
  from Cons.prems p have d: "distinct (map fst override)" and n: "k' \<notin> fst ` set override"
    by auto
  from n have none: "map_of override k' = None" by (simp add: map_of_eq_None_iff)
  show ?case
  proof (cases "k = k'")
    case True
    then have kk: "k' = k" by simp
    from none show ?thesis
      by (simp add: p kk Cons.IH [OF d] update_conv')
  next
    case False
    then have m: "map_of (AList.update k' x base) k = map_of base k" for x
      by (simp add: update_conv')
    from False have m2: "map_of ((k', v') # override) k = map_of override k"
      by simp
    show ?thesis
      by (simp only: p merge_dicts.simps Cons.IH [OF d] m m2)
  qed
qed

lemma keys_merge_dicts:
  "fst ` set (merge_dicts base override) = fst ` set base \<union> fst ` set override"
proof (induction override arbitrary: base)
  case Nil
  show ?case by simp
next
  case (Cons p override)
  obtain k v where p: "p = (k, v)" by (cases p)
  show ?case
    unfolding p merge_dicts.simps Cons.IH dom_update by auto
qed

lemma distinct_merge_dicts:
  "distinct (map fst base) \<Longrightarrow> distinct (map fst (merge_dicts base override))"
  by (induction override arbitrary: base) (auto simp: AList.distinct_update)


lemma merge_dicts_leaf:
  assumes "distinct (map fst override)" and "map_of override k = Some v"
    and "\<And>d. v \<noteq> PDict d"
  shows "map_of (merge_dicts base override) k = Some v"
  using assms(2,3)
  by (auto simp: map_of_merge_dicts [OF assms(1)] split: option.splits pyval.splits)

lemma merge_dicts_absent:
  assumes "distinct (map fst override)" and "map_of override k = None"
  shows "map_of (merge_dicts base override) k = map_of base k"
  using assms(2) by (simp add: map_of_merge_dicts [OF assms(1)])

lemma merge_dicts_bag:
  assumes "distinct (map fst override)" and "map_of override k = Some (PDict d)"
    and "distinct (map fst d)" and "map_of d k' = Some v" and "\<And>x. v \<noteq> PDict x"
  shows "\<exists>d'. map_of (merge_dicts base override) k = Some (PDict d')
            \<and> map_of d' k' = Some v"
proof (cases "\<exists>b. map_of base k = Some (PDict b)")
  case True
  then obtain b where b: "map_of base k = Some (PDict b)" by blast
  with assms(2) have "map_of (merge_dicts base override) k = Some (PDict (merge_dicts b d))"
    by (simp add: map_of_merge_dicts [OF assms(1)])
  moreover have "map_of (merge_dicts b d) k' = Some v"
    using assms(3,4,5) by (rule merge_dicts_leaf)
  ultimately show ?thesis by blast
next
  case False
  with assms(2) have "map_of (merge_dicts base override) k = Some (PDict d)"
    by (auto simp: map_of_merge_dicts [OF assms(1)] split: option.splits pyval.splits)
  with assms(4) show ?thesis by blast
qed

lemma baseline_distinct:
  "distinct (map fst baseline_layout)" "distinct (map fst baseline_volume_layout)"
  by (simp_all add: baseline_layout_def baseline_volume_layout_def)

lemma baseline_applied:
  "map_of (merge_dicts init baseline_layout) ''showlegend'' = Some (PBool True)"
  "\<exists>d. map_of (merge_dicts init baseline_layout) ''xaxis'' = Some (PDict d)
        \<and> map_of d ''showgrid'' = Some (PBool True)"
  "\<exists>d. map_of (merge_dicts init baseline_layout) ''xaxis'' = Some (PDict d)
        \<and> map_of d ''rangeslider_visible'' = Some (PBool False)"
  "\<exists>d. map_of (merge_dicts init baseline_layout) ''yaxis'' = Some (PDict d)
        \<and> map_of d ''showgrid'' = Some (PBool True)"
proof -
  show "map_of (merge_dicts init baseline_layout) ''showlegend'' = Some (PBool True)"
    by (rule merge_dicts_leaf [OF baseline_distinct(1)])
      (simp_all add: baseline_layout_def)
  show "\<exists>d. map_of (merge_dicts init baseline_layout) ''xaxis'' = Some (PDict d)
        \<and> map_of d ''showgrid'' = Some (PBool True)"
    by (rule merge_dicts_bag [OF baseline_distinct(1),
          where d = "[(''rangeslider_visible'', PBool False), (''showgrid'', PBool True)]"])
      (simp_all add: baseline_layout_def)
  show "\<exists>d. map_of (merge_dicts init baseline_layout) ''xaxis'' = Some (PDict d)
        \<and> map_of d ''rangeslider_visible'' = Some (PBool False)"
    by (rule merge_dicts_bag [OF baseline_distinct(1),
          where d = "[(''rangeslider_visible'', PBool False), (''showgrid'', PBool True)]"])
      (simp_all add: baseline_layout_def)
  show "\<exists>d. map_of (merge_dicts init baseline_layout) ''yaxis'' = Some (PDict d)
        \<and> map_of d ''showgrid'' = Some (PBool True)"
    by (rule merge_dicts_bag [OF baseline_distinct(1),
          where d = "[(''showgrid'', PBool True)]"])
      (simp_all add: baseline_layout_def)
qed

lemma baseline_volume_applied:
  "map_of (merge_dicts init baseline_volume_layout) ''bargap'' = Some (PInt 0)"
  "\<exists>d. map_of (merge_dicts init baseline_volume_layout) ''xaxis2'' = Some (PDict d)
        \<and> map_of d ''showgrid'' = Some (PBool True)"
  "\<exists>d. map_of (merge_dicts init baseline_volume_layout) ''yaxis2'' = Some (PDict d)
        \<and> map_of d ''showgrid'' = Some (PBool True)"
  "map_of (merge_dicts init baseline_volume_layout) ''showlegend'' = map_of init ''showlegend''"
  "map_of (merge_dicts init baseline_volume_layout) ''xaxis'' = map_of init ''xaxis''"
  "map_of (merge_dicts init baseline_volume_layout) ''yaxis'' = map_of init ''yaxis''"
proof -
  show "map_of (merge_dicts init baseline_volume_layout) ''bargap'' = Some (PInt 0)"
    by (rule merge_dicts_leaf [OF baseline_distinct(2)])
      (simp_all add: baseline_volume_layout_def)
  show "\<exists>d. map_of (merge_dicts init baseline_volume_layout) ''xaxis2'' = Some (PDict d)
        \<and> map_of d ''showgrid'' = Some (PBool True)"
    by (rule merge_dicts_bag [OF baseline_distinct(2), where d = "[(''showgrid'', PBool True)]"])
      (simp_all add: baseline_volume_layout_def)
  show "\<exists>d. map_of (merge_dicts init baseline_volume_layout) ''yaxis2'' = Some (PDict d)
        \<and> map_of d ''showgrid'' = Some (PBool True)"
    by (rule merge_dicts_bag [OF baseline_distinct(2), where d = "[(''showgrid'', PBool True)]"])
      (simp_all add: baseline_volume_layout_def)
  show "map_of (merge_dicts init baseline_volume_layout) ''showlegend'' = map_of init ''showlegend''"
    by (rule merge_dicts_absent [OF baseline_distinct(2)])
      (simp add: baseline_volume_layout_def)
  show "map_of (merge_dicts init baseline_volume_layout) ''xaxis'' = map_of init ''xaxis''"
    by (rule merge_dicts_absent [OF baseline_distinct(2)])
      (simp add: baseline_volume_layout_def)
  show "map_of (merge_dicts init baseline_volume_layout) ''yaxis'' = map_of init ''yaxis''"
    by (rule merge_dicts_absent [OF baseline_distinct(2)])
      (simp add: baseline_volume_layout_def)
qed

lemma baseline_xaxis:
  "\<exists>d. map_of (merge_dicts init baseline_layout) ''xaxis'' = Some (PDict d)
        \<and> map_of d ''showgrid'' = Some (PBool True)
        \<and> map_of d ''rangeslider_visible'' = Some (PBool False)"
proof -
  let ?x = "[(''rangeslider_visible'', PBool False), (''showgrid'', PBool True)]"
  have x: "map_of baseline_layout ''xaxis'' = Some (PDict ?x)"
    by (simp add: baseline_layout_def)
  have dx: "distinct (map fst ?x)" by simp
  show ?thesis
  proof (cases "\<exists>b. map_of init ''xaxis'' = Some (PDict b)")
    case True
    then obtain b where b: "map_of init ''xaxis'' = Some (PDict b)" by blast
    with x have "map_of (merge_dicts init baseline_layout) ''xaxis''
        = Some (PDict (merge_dicts b ?x))"
      by (simp add: map_of_merge_dicts [OF baseline_distinct(1)])
    moreover have "map_of (merge_dicts b ?x) ''showgrid'' = Some (PBool True)"
      by (rule merge_dicts_leaf [OF dx]) simp_all
    moreover have "map_of (merge_dicts b ?x) ''rangeslider_visible'' = Some (PBool False)"
      by (rule merge_dicts_leaf [OF dx]) simp_all
    ultimately show ?thesis by blast
  next
    case False
    with x have "map_of (merge_dicts init baseline_layout) ''xaxis'' = Some (PDict ?x)"
      by (auto simp: map_of_merge_dicts [OF baseline_distinct(1)]
          split: option.splits pyval.splits)
    then show ?thesis by simp
  qed
qed

lemma column_index_Inr_iff:
  "column_index names dfc role = Inr i \<longleftrightarrow>
     (\<exists>label. names role = Some label \<and> i < length dfc \<and> dfc ! i = lower label
        \<and> (\<forall>j<i. dfc ! j \<noteq> lower label))"
proof (cases "names role")
  case None
  then show ?thesis by (simp add: column_index_def)
next
  case (Some label)
  show ?thesis
  proof (cases "list_index dfc (lower label)")
    case None
    then have "lower label \<notin> set dfc" by (simp add: list_index_None_iff)
    then have "\<not> (i < length dfc \<and> dfc ! i = lower label)" by (metis nth_mem)
    with None Some show ?thesis by (auto simp: column_index_def)
  next
    case (Some k)
    with \<open>names role = Some label\<close> show ?thesis
      by (simp add: column_index_def list_index_Some_iff [symmetric])
  qed
qed

lemma column_index_Inl_iff:
  "column_index names dfc role = Inl e \<longleftrightarrow>
     (names role = None \<and> e = KeyError role)
     \<or> (\<exists>label. names role = Some label \<and> lower label \<notin> set dfc
           \<and> e = MissingColumnError (lower label))"
proof (cases "names role")
  case None
  then show ?thesis by (auto simp: column_index_def)
next
  case (Some label)
  show ?thesis
  proof (cases "list_index dfc (lower label)")
    case None
    with Some show ?thesis by (auto simp: column_index_def list_index_None_iff [symmetric])
  next
    case (Some k)
    then have "list_index dfc (lower label) \<noteq> None" by simp
    then have "lower label \<in> set dfc" by (simp add: list_index_None_iff)
    with Some \<open>names role = Some label\<close> show ?thesis by (simp add: column_index_def)
  qed
qed

lemma in_df_column_names:
  "lower label \<in> set (df_column_names df) \<longleftrightarrow> (\<exists>c \<in> set (columns df). lower c = lower label)"
  by (simp add: df_column_names_def image_iff) metis

lemma column_index_Inr_ex:
  assumes "names role = Some label" and "lower label \<in> set dfc"
  shows "\<exists>i. column_index names dfc role = Inr i"
proof (cases "column_index names dfc role")
  case (Inl e)
  with assms show ?thesis by (auto simp: column_index_Inl_iff)
next
  case (Inr i)
  then show ?thesis by blast
qed

lemma role_index_matches:
  assumes "role_index st self role = Inr i"
  shows "\<exists>label. resolve_column_names st self role = Some label
           \<and> i < length (columns (obj self))
           \<and> lower (columns (obj self) ! i) = lower label
           \<and> (\<forall>j<i. lower (columns (obj self) ! j) \<noteq> lower label)"
proof -
  from assms obtain label where
    l: "resolve_column_names st self role = Some label"
    and i: "i < length (df_column_names (obj self))"
    and m: "df_column_names (obj self) ! i = lower label"
    and f: "\<forall>j<i. df_column_names (obj self) ! j \<noteq> lower label"
    unfolding column_index_Inr_iff by blast
  from i have i': "i < length (columns (obj self))" by (simp add: df_column_names_def)
  from m i' have m': "lower (columns (obj self) ! i) = lower label"
    by (simp add: df_column_names_def)
  from f i' have f': "\<forall>j<i. lower (columns (obj self) ! j) \<noteq> lower label"
    by (simp add: df_column_names_def)
  from l i' m' f' show ?thesis by blast
qed

section \<open>What a call of \<open>plot\<close> that returns has done\<close>

lemma length_update_layout: "length (update_layout a kw h) = length h"
  by (simp add: update_layout_def)

lemma set_up_figure_Some:
  "set_up_figure st b (Some a) lk h = (a, update_layout a lk h)"
  by (simp add: set_up_figure_def)

lemma set_up_figure_None:
  "set_up_figure st b None lk h =
     (length h,
      h @ [\<lparr>grid = (if b then Some \<lparr>rows = 2, ncols = 1, shared_xaxes = True,
                                     vertical_spacing = 0, row_heights = [7 / 10, 3 / 10]\<rparr>
                     else None),
             layout =
               merge_dicts
                 (if b then merge_dicts (merge_dicts (subplots_layout st) baseline_layout)
                                        baseline_volume_layout
                  else merge_dicts (figure_layout st) baseline_layout)
                 lk,
             traces = []\<rparr>])"
  by (simp add: set_up_figure_def new_figure_def update_layout_def make_figure_def
      make_subplots_def nth_append)

lemma plot_success:
  assumes "plot st self pt dv ok vk oak vak fig lk h = (Inr a, h')"
  shows "\<exists>b io ih il ic iv name ctor h1.
      shown st self dv = Inr b
    \<and> role_index st self ''open'' = Inr io
    \<and> role_index st self ''high'' = Inr ih
    \<and> role_index st self ''low'' = Inr il
    \<and> role_index st self ''close'' = Inr ic
    \<and> (b \<longrightarrow> role_index st self ''volume'' = Inr iv)
    \<and> resolve_plot_type st pt = Inr (name, ctor)
    \<and> set_up_figure st b fig lk h = (a, h1)
    \<and> h' = (if b
             then add_trace a (volume_trace st self io ic iv vk) (placement b 2 (or_empty vak))
                    (add_trace a (price_trace st self ctor name io ih il ic ok)
                       (placement b 1 (or_empty oak)) h1)
             else add_trace a (price_trace st self ctor name io ih il ic ok)
                    (placement b 1 (or_empty oak)) h1)"
  using assms
  by (auto simp: plot_def Let_def split: sum.splits prod.splits if_splits)

lemma plot_success_supplied:
  assumes "plot st self pt dv ok vk oak vak (Some a0) lk h = (Inr a, h')"
    and "a0 < length h"
  shows "\<exists>b io ih il ic iv name ctor.
      shown st self dv = Inr b
    \<and> role_index st self ''open'' = Inr io
    \<and> role_index st self ''high'' = Inr ih
    \<and> role_index st self ''low'' = Inr il
    \<and> role_index st self ''close'' = Inr ic
    \<and> (b \<longrightarrow> role_index st self ''volume'' = Inr iv)
    \<and> resolve_plot_type st pt = Inr (name, ctor)
    \<and> a = a0
    \<and> h' = h[a0 :=
          \<lparr>grid = grid (h ! a0),
           layout = merge_dicts (layout (h ! a0)) lk,
           traces = traces (h ! a0)
             @ (price_trace st self ctor name io ih il ic ok, placement b 1 (or_empty oak))
             # (if b then [(volume_trace st self io ic iv vk, placement b 2 (or_empty vak))]
                else [])\<rparr>]"
proof -
  from plot_success [OF assms(1)] obtain b io ih il ic iv name ctor h1 where
    r: "shown st self dv = Inr b" "role_index st self ''open'' = Inr io"
       "role_index st self ''high'' = Inr ih" "role_index st self ''low'' = Inr il"
       "role_index st self ''close'' = Inr ic" "b \<longrightarrow> role_index st self ''volume'' = Inr iv"
       "resolve_plot_type st pt = Inr (name, ctor)"
    and s: "set_up_figure st b (Some a0) lk h = (a, h1)"
    and h': "h' = (if b
             then add_trace a (volume_trace st self io ic iv vk) (placement b 2 (or_empty vak))
                    (add_trace a (price_trace st self ctor name io ih il ic ok)
                       (placement b 1 (or_empty oak)) h1)
             else add_trace a (price_trace st self ctor name io ih il ic ok)
                    (placement b 1 (or_empty oak)) h1)"
    by blast
  from s have a: "a = a0" and h1: "h1 = update_layout a0 lk h"
    by (auto simp: set_up_figure_Some)
  have "h' = h[a0 :=
          \<lparr>grid = grid (h ! a0),
           layout = merge_dicts (layout (h ! a0)) lk,
           traces = traces (h ! a0)
             @ (price_trace st self ctor name io ih il ic ok, placement b 1 (or_empty oak))
             # (if b then [(volume_trace st self io ic iv vk, placement b 2 (or_empty vak))]
                else [])\<rparr>]"
    using assms(2) unfolding h' h1 a
    by (cases "h ! a0") (simp add: add_trace_def update_layout_def)
  with r a show ?thesis by blast
qed

lemma plot_success_fresh:
  assumes "plot st self pt dv ok vk oak vak None lk h = (Inr a, h')"
  shows "\<exists>b io ih il ic iv name ctor.
      shown st self dv = Inr b
    \<and> role_index st self ''open'' = Inr io
    \<and> role_index st self ''high'' = Inr ih
    \<and> role_index st self ''low'' = Inr il
    \<and> role_index st self ''close'' = Inr ic
    \<and> (b \<longrightarrow> role_index st self ''volume'' = Inr iv)
    \<and> resolve_plot_type st pt = Inr (name, ctor)
    \<and> a = length h
    \<and> h' = h @
          [\<lparr>grid = (if b then Some \<lparr>rows = 2, ncols = 1, shared_xaxes = True,
                                     vertical_spacing = 0, row_heights = [7 / 10, 3 / 10]\<rparr>
                     else None),
            layout =
              merge_dicts
                (if b then merge_dicts (merge_dicts (subplots_layout st) baseline_layout)
                                       baseline_volume_layout
                 else merge_dicts (figure_layout st) baseline_layout)
                lk,
            traces =
              (price_trace st self ctor name io ih il ic ok, placement b 1 (or_empty oak))
              # (if b then [(volume_trace st self io ic iv vk, placement b 2 (or_empty vak))]
                 else [])\<rparr>]"
proof -
  from plot_success [OF assms(1)] obtain b io ih il ic iv name ctor h1 where
    r: "shown st self dv = Inr b" "role_index st self ''open'' = Inr io"
       "role_index st self ''high'' = Inr ih" "role_index st self ''low'' = Inr il"
       "role_index st self ''close'' = Inr ic" "b \<longrightarrow> role_index st self ''volume'' = Inr iv"
       "resolve_plot_type st pt = Inr (name, ctor)"
    and s: "set_up_figure st b None lk h = (a, h1)"
    and h': "h' = (if b
             then add_trace a (volume_trace st self io ic iv vk) (placement b 2 (or_empty vak))
                    (add_trace a (price_trace st self ctor name io ih il ic ok)
                       (placement b 1 (or_empty oak)) h1)
             else add_trace a (price_trace st self ctor name io ih il ic ok)
                    (placement b 1 (or_empty oak)) h1)"
    by blast
  note s' = s [unfolded set_up_figure_None]
  from s' have a: "a = length h" by simp
  from s' have h1: "h1 = h @
          [\<lparr>grid = (if b then Some \<lparr>rows = 2, ncols = 1, shared_xaxes = True,
                                     vertical_spacing = 0, row_heights = [7 / 10, 3 / 10]\<rparr>
                     else None),
            layout =
              merge_dicts
                (if b then merge_dicts (merge_dicts (subplots_layout st) baseline_layout)
                                       baseline_volume_layout
                 else merge_dicts (figure_layout st) baseline_layout)
                lk,
            traces = []\<rparr>]" by simp
  have "h' = h @
          [\<lparr>grid = (if b then Some \<lparr>rows = 2, ncols = 1, shared_xaxes = True,
                                     vertical_spacing = 0, row_heights = [7 / 10, 3 / 10]\<rparr>
                     else None),
            layout =
              merge_dicts
                (if b then merge_dicts (merge_dicts (subplots_layout st) baseline_layout)
                                       baseline_volume_layout
                 else merge_dicts (figure_layout st) baseline_layout)
                lk,
            traces =
              (price_trace st self ctor name io ih il ic ok, placement b 1 (or_empty oak))
              # (if b then [(volume_trace st self io ic iv vk, placement b 2 (or_empty vak))]
                 else [])\<rparr>]"
    unfolding h' h1 a by (simp add: add_trace_def)
  with r a show ?thesis by blast
qed

lemma plot_success_figure:
  assumes "plot st self pt dv ok vk oak vak fig lk h = (Inr a, h')"
    and "\<forall>a0. fig = Some a0 \<longrightarrow> a0 < length h"
  shows "\<exists>b io ih il ic iv name ctor.
      shown st self dv = Inr b
    \<and> role_index st self ''open'' = Inr io
    \<and> role_index st self ''high'' = Inr ih
    \<and> role_index st self ''low'' = Inr il
    \<and> role_index st self ''close'' = Inr ic
    \<and> (b \<longrightarrow> role_index st self ''volume'' = Inr iv)
    \<and> resolve_plot_type st pt = Inr (name, ctor)
    \<and> a = (case fig of None \<Rightarrow> length h | Some a0 \<Rightarrow> a0)
    \<and> length h' = (case fig of None \<Rightarrow> Suc (length h) | Some a0 \<Rightarrow> length h)
    \<and> (\<forall>i<length h. i \<noteq> a \<longrightarrow> h' ! i = h ! i)
    \<and> h' ! a =
          \<lparr>grid =
             (case fig of
                None \<Rightarrow>
                  if b then Some \<lparr>rows = 2, ncols = 1, shared_xaxes = True,
                                  vertical_spacing = 0, row_heights = [7 / 10, 3 / 10]\<rparr>
                  else None
              | Some a0 \<Rightarrow> grid (h ! a0)),
           layout =
             merge_dicts
               (case fig of
                  None \<Rightarrow>
                    if b then merge_dicts (merge_dicts (subplots_layout st) baseline_layout)
                                          baseline_volume_layout
                    else merge_dicts (figure_layout st) baseline_layout
                | Some a0 \<Rightarrow> layout (h ! a0))
               lk,
           traces =
             (case fig of None \<Rightarrow> [] | Some a0 \<Rightarrow> traces (h ! a0))
             @ (price_trace st self ctor name io ih il ic ok, placement b 1 (or_empty oak))
             # (if b then [(volume_trace st self io ic iv vk, placement b 2 (or_empty vak))]
                else [])\<rparr>"
proof (cases fig)
  case None
  from plot_success_fresh [OF assms(1) [unfolded None]]
  obtain b io ih il ic iv name ctor where
    r: "shown st self dv = Inr b" "role_index st self ''open'' = Inr io"
       "role_index st self ''high'' = Inr ih" "role_index st self ''low'' = Inr il"
       "role_index st self ''close'' = Inr ic" "b \<longrightarrow> role_index st self ''volume'' = Inr iv"
       "resolve_plot_type st pt = Inr (name, ctor)"
    and a: "a = length h"
    and h': "h' = h @
          [\<lparr>grid = (if b then Some \<lparr>rows = 2, ncols = 1, shared_xaxes = True,
                                     vertical_spacing = 0, row_heights = [7 / 10, 3 / 10]\<rparr>
                     else None),
            layout =
              merge_dicts
                (if b then merge_dicts (merge_dicts (subplots_layout st) baseline_layout)
                                       baseline_volume_layout
                 else merge_dicts (figure_layout st) baseline_layout)
                lk,
            traces =
              (price_trace st self ctor name io ih il ic ok, placement b 1 (or_empty oak))
              # (if b then [(volume_trace st self io ic iv vk, placement b 2 (or_empty vak))]
                 else [])\<rparr>]"
    by blast
  from h' have 1: "length h' = Suc (length h)" by simp
  from h' have 2: "\<forall>i<length h. i \<noteq> a \<longrightarrow> h' ! i = h ! i" by (simp add: nth_append)
  from h' a have 3: "h' ! a =
          \<lparr>grid = (if b then Some \<lparr>rows = 2, ncols = 1, shared_xaxes = True,
                                     vertical_spacing = 0, row_heights = [7 / 10, 3 / 10]\<rparr>
                     else None),
            layout =
              merge_dicts
                (if b then merge_dicts (merge_dicts (subplots_layout st) baseline_layout)
                                       baseline_volume_layout
                 else merge_dicts (figure_layout st) baseline_layout)
                lk,
            traces =
              [] @ (price_trace st self ctor name io ih il ic ok, placement b 1 (or_empty oak))
              # (if b then [(volume_trace st self io ic iv vk, placement b 2 (or_empty vak))]
                 else [])\<rparr>" by simp
  show ?thesis
    unfolding None option.case
    using r a 1 2 3 by blast
next
  case (Some a0)
  with assms(2) have lt: "a0 < length h" by simp
  from plot_success_supplied [OF assms(1) [unfolded Some] lt]
  obtain b io ih il ic iv name ctor where
    r: "shown st self dv = Inr b" "role_index st self ''open'' = Inr io"
       "role_index st self ''high'' = Inr ih" "role_index st self ''low'' = Inr il"
       "role_index st self ''close'' = Inr ic" "b \<longrightarrow> role_index st self ''volume'' = Inr iv"
       "resolve_plot_type st pt = Inr (name, ctor)"
    and a: "a = a0"
    and h': "h' = h[a0 :=
          \<lparr>grid = grid (h ! a0),
           layout = merge_dicts (layout (h ! a0)) lk,
           traces = traces (h ! a0)
             @ (price_trace st self ctor name io ih il ic ok, placement b 1 (or_empty oak))
             # (if b then [(volume_trace st self io ic iv vk, placement b 2 (or_empty vak))]
                else [])\<rparr>]"
    by blast
  from h' have 1: "length h' = length h" by simp
  from h' a have 2: "\<forall>i<length h. i \<noteq> a \<longrightarrow> h' ! i = h ! i" by simp
  from h' a lt have 3: "h' ! a =
          \<lparr>grid = grid (h ! a0),
           layout = merge_dicts (layout (h ! a0)) lk,
           traces = traces (h ! a0)
             @ (price_trace st self ctor name io ih il ic ok, placement b 1 (or_empty oak))
             # (if b then [(volume_trace st self io ic iv vk, placement b 2 (or_empty vak))]
                else [])\<rparr>" by simp
  show ?thesis
    unfolding Some option.case
    using r a 1 2 3 by blast
qed

lemma plot_success_parts:
  assumes "plot st self pt dv ok vk oak vak fig lk h = (Inr a, h')"
    and "\<forall>a0. fig = Some a0 \<longrightarrow> a0 < length h"
  shows "\<exists>b io ih il ic iv name ctor.
      shown st self dv = Inr b
    \<and> role_index st self ''open'' = Inr io
    \<and> role_index st self ''high'' = Inr ih
    \<and> role_index st self ''low'' = Inr il
    \<and> role_index st self ''close'' = Inr ic
    \<and> (b \<longrightarrow> role_index st self ''volume'' = Inr iv)
    \<and> resolve_plot_type st pt = Inr (name, ctor)
    \<and> a = (case fig of None \<Rightarrow> length h | Some a0 \<Rightarrow> a0)
    \<and> length h' = (case fig of None \<Rightarrow> Suc (length h) | Some a0 \<Rightarrow> length h)
    \<and> (\<forall>i<length h. i \<noteq> a \<longrightarrow> h' ! i = h ! i)
    \<and> grid (h' ! a) =
          (case fig of
             None \<Rightarrow>
               if b then Some \<lparr>rows = 2, ncols = 1, shared_xaxes = True,
                               vertical_spacing = 0, row_heights = [7 / 10, 3 / 10]\<rparr>
               else None
           | Some a0 \<Rightarrow> grid (h ! a0))
    \<and> layout (h' ! a) =
          merge_dicts
            (case fig of
               None \<Rightarrow>
                 if b then merge_dicts (merge_dicts (subplots_layout st) baseline_layout)
                                       baseline_volume_layout
                 else merge_dicts (figure_layout st) baseline_layout
             | Some a0 \<Rightarrow> layout (h ! a0))
            lk
    \<and> traces (h' ! a) =
          (case fig of None \<Rightarrow> [] | Some a0 \<Rightarrow> traces (h ! a0))
          @ (price_trace st self ctor name io ih il ic ok, placement b 1 (or_empty oak))
          # (if b then [(volume_trace st self io ic iv vk, placement b 2 (or_empty vak))]
             else [])"
proof -
  from plot_success_figure [OF assms]
  obtain b io ih il ic iv name ctor where
    r: "shown st self dv = Inr b" "role_index st self ''open'' = Inr io"
      "role_index st self ''high'' = Inr ih" "role_index st self ''low'' = Inr il"
      "role_index st self ''close'' = Inr ic" "b \<longrightarrow> role_index st self ''volume'' = Inr iv"
      "resolve_plot_type st pt = Inr (name, ctor)"
      "a = (case fig of None \<Rightarrow> length h | Some a0 \<Rightarrow> a0)"
      "length h' = (case fig of None \<Rightarrow> Suc (length h) | Some a0 \<Rightarrow> length h)"
      "\<forall>i<length h. i \<noteq> a \<longrightarrow> h' ! i = h ! i"
    and f: "h' ! a =
          \<lparr>grid =
             (case fig of
                None \<Rightarrow>
                  if b then Some \<lparr>rows = 2, ncols = 1, shared_xaxes = True,
                                  vertical_spacing = 0, row_heights = [7 / 10, 3 / 10]\<rparr>
                  else None
              | Some a0 \<Rightarrow> grid (h ! a0)),
           layout =
             merge_dicts
               (case fig of
                  None \<Rightarrow>
                    if b then merge_dicts (merge_dicts (subplots_layout st) baseline_layout)
                                          baseline_volume_layout
                    else merge_dicts (figure_layout st) baseline_layout
                | Some a0 \<Rightarrow> layout (h ! a0))
               lk,
           traces =
             (case fig of None \<Rightarrow> [] | Some a0 \<Rightarrow> traces (h ! a0))
             @ (price_trace st self ctor name io ih il ic ok, placement b 1 (or_empty oak))
             # (if b then [(volume_trace st self io ic iv vk, placement b 2 (or_empty vak))]
                else [])\<rparr>"
    by blast
  have g: "grid (h' ! a) =
          (case fig of
             None \<Rightarrow>
               if b then Some \<lparr>rows = 2, ncols = 1, shared_xaxes = True,
                               vertical_spacing = 0, row_heights = [7 / 10, 3 / 10]\<rparr>
               else None
           | Some a0 \<Rightarrow> grid (h ! a0))"
    unfolding f by simp
  have l: "layout (h' ! a) =
          merge_dicts
            (case fig of
               None \<Rightarrow>
                 if b then merge_dicts (merge_dicts (subplots_layout st) baseline_layout)
                                       baseline_volume_layout
                 else merge_dicts (figure_layout st) baseline_layout
             | Some a0 \<Rightarrow> layout (h ! a0))
            lk"
    unfolding f by simp
  have t: "traces (h' ! a) =
          (case fig of None \<Rightarrow> [] | Some a0 \<Rightarrow> traces (h ! a0))
          @ (price_trace st self ctor name io ih il ic ok, placement b 1 (or_empty oak))
          # (if b then [(volume_trace st self io ic iv vk, placement b 2 (or_empty vak))]
             else [])"
    unfolding f by simp
  from r g l t show ?thesis by blast
qed


lemma length_marker_colors:
  assumes "length volume_s = n" and "length open_s = n" and "length close_s = n"
  shows "length (marker_colors cs volume_s open_s close_s) = n"
  using assms by (simp add: marker_colors_def mask_assign_def Let_def)

lemma marker_colors_nth:
  assumes "length volume_s = n" and "length open_s = n" and "length close_s = n"
    and "i < n"
  shows "marker_colors cs volume_s open_s close_s ! i =
     (if close_s ! i - open_s ! i > 0 then increasing cs
      else if close_s ! i - open_s ! i = 0 then gray cs
      else decreasing cs)"
  using assms by (auto simp: marker_colors_def mask_assign_def Let_def)

lemma length_iloc:
  assumes "wf_frame df" and "j < length (columns df)"
  shows "length (iloc df j) = length (index df)"
  using assms by (simp add: wf_frame_def iloc_def columns_def list_all_length)

lemma role_index_less:
  assumes "role_index st self role = Inr i"
  shows "i < length (columns (obj self))"
  using role_index_matches [OF assms] by blast

lemma update_empty: "update t (or_empty None) = t"
  by (simp add: update_def or_empty_def)

lemma length_alist_update: "length al \<le> length (AList.update k v al)"
  by (induction al) auto

lemma nth_of_take:
  assumes "take n xs = ys" and "i < length ys"
  shows "xs ! i = ys ! i"
proof -
  from assms have "i < n" by auto
  then have "take n xs ! i = xs ! i" by simp
  with assms(1) show ?thesis by simp
qed

lemma keys_prefix_merge_dicts:
  "take (length base) (map fst (merge_dicts base override)) = map fst base"
proof (induction override arbitrary: base)
  case Nil
  show ?case by simp
next
  case (Cons p override)
  obtain k v where p: "p = (k, v)" by (cases p)
  define x where "x = (case (map_of base k, v) of
             (Some (PDict b), PDict ov) \<Rightarrow> PDict (merge_dicts b ov)
           | _ \<Rightarrow> v)"
  let ?b = "AList.update k x base"
  have m: "merge_dicts base (p # override) = merge_dicts ?b override"
    by (simp add: p x_def)
  have le: "length base \<le> length ?b"
    by (rule length_alist_update)
  have pre: "take (length base) (map fst ?b) = map fst base"
    by (simp add: update_keys)
  have "take (length base) (map fst (merge_dicts ?b override))
      = take (length base) (take (length ?b) (map fst (merge_dicts ?b override)))"
    using le by (simp add: min_def)
  also have "\<dots> = take (length base) (map fst ?b)"
    by (simp only: Cons.IH)
  also have "\<dots> = map fst base" by (rule pre)
  finally show ?case by (simp only: m)
qed

lemma price_trace_second_key:
  "map fst (props (price_trace st self ctor name io ih il ic ok)) ! 1 = ''open''"
proof -
  let ?base = "props (ohlc_trace st ctor name (index (obj self)) (iloc (obj self) io)
          (iloc (obj self) ih) (iloc (obj self) il) (iloc (obj self) ic))"
  let ?L = "map fst (merge_dicts ?base (or_empty ok))"
  have "take (length ?base) ?L = map fst ?base" by (rule keys_prefix_merge_dicts)
  then have "?L ! 1 = map fst ?base ! 1"
    by (rule nth_of_take) (simp add: ohlc_trace_def)
  then have "?L ! 1 = ''open''" by (simp add: ohlc_trace_def)
  then show ?thesis by (simp add: update_def)
qed

lemma volume_trace_second_key:
  "map fst (props (volume_trace st self io ic iv vk)) ! 1 = ''y''"
proof -
  let ?base = "props (volume_bar (index (obj self)) (iloc (obj self) iv)
          (marker_colors (cfg_color_schema st) (iloc (obj self) iv)
             (iloc (obj self) io) (iloc (obj self) ic)))"
  let ?L = "map fst (merge_dicts ?base (or_empty vk))"
  have "take (length ?base) ?L = map fst ?base" by (rule keys_prefix_merge_dicts)
  then have "?L ! 1 = map fst ?base ! 1"
    by (rule nth_of_take) (simp add: volume_bar_def)
  then have "?L ! 1 = ''y''" by (simp add: volume_bar_def)
  then show ?thesis by (simp add: update_def)
qed

lemma price_trace_not_volume_trace:
  "price_trace st self ctor name io ih il ic ok \<noteq> volume_trace st' self' io' ic' iv vk"
proof
  assume "price_trace st self ctor name io ih il ic ok = volume_trace st' self' io' ic' iv vk"
  then have "map fst (props (price_trace st self ctor name io ih il ic ok)) ! 1
      = map fst (props (volume_trace st' self' io' ic' iv vk)) ! 1"
    by simp
  then have "''open'' = ''y''"
    by (simp only: price_trace_second_key volume_trace_second_key)
  then show False by simp
qed

section \<open>When \<open>plot\<close> returns and when it raises\<close>

lemma plot_returns:
  assumes "shown st self dv = Inr b"
    and "role_index st self ''open'' = Inr io"
    and "role_index st self ''high'' = Inr ih"
    and "role_index st self ''low'' = Inr il"
    and "role_index st self ''close'' = Inr ic"
    and "resolve_plot_type st pt = Inr x"
    and "b \<longrightarrow> role_index st self ''volume'' = Inr iv"
  shows "\<exists>a h'. plot st self pt dv ok vk oak vak fig lk h = (Inr a, h')"
  using assms
  by (cases b) (auto simp: plot_def Let_def split: sum.splits prod.splits)

lemma plot_raises_required:
  assumes "shown st self dv = Inr b"
    and "role_index st self ''open'' = Inl e1 \<or> role_index st self ''high'' = Inl e2
         \<or> role_index st self ''low'' = Inl e3 \<or> role_index st self ''close'' = Inl e4"
  shows "\<exists>e. plot st self pt dv ok vk oak vak fig lk h = (Inl e, h)
     \<and> (role_index st self ''open'' = Inl e \<or> role_index st self ''high'' = Inl e
         \<or> role_index st self ''low'' = Inl e \<or> role_index st self ''close'' = Inl e)"
  using assms
  by (auto simp: plot_def Let_def split: sum.splits prod.splits)

lemma traces_update_layout:
  "i < length h \<Longrightarrow> traces (update_layout a kw h ! i) = traces (h ! i)"
  by (cases "i = a") (simp_all add: update_layout_def)

lemma set_up_figure_traces:
  assumes "set_up_figure st v fig lk h = (a, h1)"
  shows "(\<forall>i<length h. traces (h1 ! i) = traces (h ! i))
       \<and> (case fig of
            None \<Rightarrow> a = length h \<and> length h1 = Suc (length h) \<and> traces (h1 ! a) = []
          | Some a0 \<Rightarrow> a = a0 \<and> length h1 = length h)"
proof (cases fig)
  case None
  with assms show ?thesis
    by (auto simp: set_up_figure_None nth_append)
next
  case (Some a0)
  with assms show ?thesis
    by (auto simp: set_up_figure_Some traces_update_layout length_update_layout)
qed

lemma plot_raises_plot_type:
  assumes "shown st self dv = Inr v"
    and "role_index st self ''open'' = Inr io"
    and "role_index st self ''high'' = Inr ih"
    and "role_index st self ''low'' = Inr il"
    and "role_index st self ''close'' = Inr ic"
    and "resolve_plot_type st pt = Inl e"
  shows "plot st self pt dv ok vk oak vak fig lk h
           = (Inl e, snd (set_up_figure st v fig lk h))"
  using assms
  by (simp add: plot_def Let_def split: prod.splits)

section \<open>The example inputs\<close>

lemma ex_names:
  "resolve_column_names ex_settings ex_self = cfg_column_names ex_settings"
  "resolve_column_names ex_settings ex_self_no_close = cfg_column_names ex_settings"
  "resolve_column_names ex_settings ex_self_no_volume = cfg_column_names ex_settings"
  by (simp_all add: resolve_column_names_def ex_self_def ex_self_no_close_def
      ex_self_no_volume_def)

lemma ex_cfg:
  "cfg_column_names ex_settings ''open'' = Some ''Open''"
  "cfg_column_names ex_settings ''high'' = Some ''High''"
  "cfg_column_names ex_settings ''low'' = Some ''Low''"
  "cfg_column_names ex_settings ''close'' = Some ''Close''"
  "cfg_column_names ex_settings ''volume'' = Some ''Volume''"
  by (simp_all add: ex_settings_def)

lemma ex_plot_fresh:
  "fst (plot ex_settings ex_self None None None None None None None [] []) = Inr 0"
  by code_simp


lemma ex_shown:
  "shown ex_settings ex_self None = Inr True"
  "shown ex_settings ex_self_no_volume None = Inr False"
  by code_simp+

lemma ex_role_index:
  "role_index ex_settings ex_self ''open'' = Inr 1"
  "role_index ex_settings ex_self ''high'' = Inr 3"
  "role_index ex_settings ex_self ''low'' = Inr 4"
  "role_index ex_settings ex_self ''close'' = Inr 5"
  by code_simp+

section \<open>The merge of option bags\<close>

text \<open>
  C9. For bags \<open>base\<close> and \<open>override\<close> (the keys of \<open>override\<close> distinct, as in every
  dictionary): a key of \<open>override\<close> whose values on both sides are nested bags maps to
  their recursive merge; any other key of \<open>override\<close> maps to the override's value; a key
  that only \<open>base\<close> has keeps its value; the keys of the result are those of both; the
  result is again a dictionary. \<open>merge_dicts\<close> is a function of values that returns a
  new bag, so \<open>base\<close> is what it was after any number of merges. The example of the
  specification is the last conjunct.
\<close>

theorem merge_dicts_semantics:
  assumes "distinct (map fst override)"
  shows "(map_of override k = Some (PDict ov) \<and> map_of base k = Some (PDict b)
            \<longrightarrow> map_of (merge_dicts base override) k = Some (PDict (merge_dicts b ov)))
       \<and> (map_of override k = Some v
              \<and> \<not> (\<exists>b ov. map_of base k = Some (PDict b) \<and> v = PDict ov)
            \<longrightarrow> map_of (merge_dicts base override) k = Some v)
       \<and> (map_of override k = None
            \<longrightarrow> map_of (merge_dicts base override) k = map_of base k)
       \<and> fst ` set (merge_dicts base override) = fst ` set base \<union> fst ` set override
       \<and> (distinct (map fst base) \<longrightarrow> distinct (map fst (merge_dicts base override)))
       \<and> merge_dicts [(''a'', PInt 1), (''b'', PDict [(''c'', PInt 2)])]
                      [(''b'', PDict [(''d'', PInt 3)])]
           = [(''a'', PInt 1), (''b'', PDict [(''c'', PInt 2), (''d'', PInt 3)])]"
proof -
  note look = map_of_merge_dicts [OF assms, of base k]
  have 1: "map_of override k = Some (PDict ov) \<and> map_of base k = Some (PDict b)
            \<longrightarrow> map_of (merge_dicts base override) k = Some (PDict (merge_dicts b ov))"
    by (simp add: look)
  have 2: "map_of override k = Some v
              \<and> \<not> (\<exists>b ov. map_of base k = Some (PDict b) \<and> v = PDict ov)
            \<longrightarrow> map_of (merge_dicts base override) k = Some v"
    by (auto simp: look split: option.splits pyval.splits)
  have 3: "map_of override k = None
            \<longrightarrow> map_of (merge_dicts base override) k = map_of base k"
    by (simp add: look)
  have 4: "merge_dicts [(''a'', PInt 1), (''b'', PDict [(''c'', PInt 2)])]
                      [(''b'', PDict [(''d'', PInt 3)])]
           = [(''a'', PInt 1), (''b'', PDict [(''c'', PInt 2), (''d'', PInt 3)])]"
    by simp
  from 1 2 3 4 keys_merge_dicts [of base override] distinct_merge_dicts [of base override]
  show ?thesis by blast
qed

theorem merge_dicts_semantics_witness:
  "distinct (map fst [(''b'', PDict [(''d'', PInt 3)]), (''e'', PInt 5)])
   \<and> map_of (merge_dicts [(''a'', PInt 1), (''b'', PDict [(''c'', PInt 2)]), (''e'', PInt 4)]
                          [(''b'', PDict [(''d'', PInt 3)]), (''e'', PInt 5)]) ''b''
       = Some (PDict (merge_dicts [(''c'', PInt 2)] [(''d'', PInt 3)]))"
proof -
  have d: "distinct (map fst [(''b'', PDict [(''d'', PInt 3)]), (''e'', PInt 5)])"
    by simp
  from merge_dicts_semantics [OF d, of "''b''" "[(''d'', PInt 3)]"
      "[(''a'', PInt 1), (''b'', PDict [(''c'', PInt 2)]), (''e'', PInt 4)]" "[(''c'', PInt 2)]"]
  have "map_of [(''b'', PDict [(''d'', PInt 3)]), (''e'', PInt 5)] ''b''
          = Some (PDict [(''d'', PInt 3)])
        \<and> map_of [(''a'', PInt 1), (''b'', PDict [(''c'', PInt 2)]), (''e'', PInt 4)] ''b''
          = Some (PDict [(''c'', PInt 2)])
        \<longrightarrow> map_of (merge_dicts [(''a'', PInt 1), (''b'', PDict [(''c'', PInt 2)]), (''e'', PInt 4)]
                          [(''b'', PDict [(''d'', PInt 3)]), (''e'', PInt 5)]) ''b''
       = Some (PDict (merge_dicts [(''c'', PInt 2)] [(''d'', PInt 3)]))"
    by blast
  then show ?thesis by simp
qed

section \<open>Column resolution\<close>

text \<open>
  C1, amended. Column resolution is case-insensitive: when \<open>plot\<close> returns, each of the
  four required roles has resolved to the position of a column whose label equals the
  mapped label up to case; the position is the same for every casing of the mapped label
  and of the frame's labels. If the mapping names all five roles and some required role
  has no column matching up to case, \<open>plot\<close> raises the missing-column error for such a
  role and leaves the store as it was. If only the volume label has no match, the plot
  type is valid and \<open>display_volume\<close> is unset or \<open>False\<close>, \<open>plot\<close> returns.
\<close>

theorem column_resolution:
  "(plot st self pt dv ok vk oak vak fig lk h = (Inr a, h')
      \<and> role \<in> {''open'', ''high'', ''low'', ''close''}
    \<longrightarrow> (\<exists>label i. resolve_column_names st self role = Some label
            \<and> role_index st self role = Inr i
            \<and> i < length (columns (obj self))
            \<and> lower (columns (obj self) ! i) = lower label))
 \<and> (names role = Some l \<and> names' role = Some l' \<and> lower l = lower l'
      \<and> map lower (columns df) = map lower (columns df')
    \<longrightarrow> column_index names (df_column_names df) role
        = column_index names' (df_column_names df') role)
 \<and> ((\<forall>r \<in> {''open'', ''high'', ''low'', ''close'', ''volume''}.
         resolve_column_names st self r \<noteq> None)
      \<and> (\<exists>r \<in> {''open'', ''high'', ''low'', ''close''}. \<exists>label.
            resolve_column_names st self r = Some label
            \<and> \<not> (\<exists>c \<in> set (columns (obj self)). lower c = lower label))
    \<longrightarrow> (\<exists>r \<in> {''open'', ''high'', ''low'', ''close''}. \<exists>label.
            resolve_column_names st self r = Some label
            \<and> \<not> (\<exists>c \<in> set (columns (obj self)). lower c = lower label)
            \<and> plot st self pt dv ok vk oak vak fig lk h
                = (Inl (MissingColumnError (lower label)), h)))
 \<and> ((\<forall>r \<in> {''open'', ''high'', ''low'', ''close''}. \<exists>label.
         resolve_column_names st self r = Some label
         \<and> (\<exists>c \<in> set (columns (obj self)). lower c = lower label))
      \<and> (\<exists>label. resolve_column_names st self ''volume'' = Some label
            \<and> \<not> (\<exists>c \<in> set (columns (obj self)). lower c = lower label))
      \<and> dv \<noteq> Some True
      \<and> (\<exists>x. resolve_plot_type st pt = Inr x)
    \<longrightarrow> (\<exists>a h'. plot st self pt dv ok vk oak vak fig lk h = (Inr a, h')))"
proof -
  let ?names = "resolve_column_names st self"
  let ?dfc = "df_column_names (obj self)"
  have 1: "plot st self pt dv ok vk oak vak fig lk h = (Inr a, h')
      \<and> role \<in> {''open'', ''high'', ''low'', ''close''}
    \<longrightarrow> (\<exists>label i. ?names role = Some label
            \<and> role_index st self role = Inr i
            \<and> i < length (columns (obj self))
            \<and> lower (columns (obj self) ! i) = lower label)"
  proof (intro impI, elim conjE)
    assume p: "plot st self pt dv ok vk oak vak fig lk h = (Inr a, h')"
      and r: "role \<in> {''open'', ''high'', ''low'', ''close''}"
    from plot_success [OF p] r obtain i where "role_index st self role = Inr i"
      by auto
    with role_index_matches [of st self role i] show
      "\<exists>label i. ?names role = Some label \<and> role_index st self role = Inr i
            \<and> i < length (columns (obj self))
            \<and> lower (columns (obj self) ! i) = lower label"
      by blast
  qed
  have 2: "names role = Some l \<and> names' role = Some l' \<and> lower l = lower l'
      \<and> map lower (columns df) = map lower (columns df')
    \<longrightarrow> column_index names (df_column_names df) role
        = column_index names' (df_column_names df') role"
    by (auto simp: column_index_def df_column_names_def split: option.splits)
  have 3: "(\<forall>r \<in> {''open'', ''high'', ''low'', ''close'', ''volume''}. ?names r \<noteq> None)
      \<and> (\<exists>r \<in> {''open'', ''high'', ''low'', ''close''}. \<exists>label.
            ?names r = Some label
            \<and> \<not> (\<exists>c \<in> set (columns (obj self)). lower c = lower label))
    \<longrightarrow> (\<exists>r \<in> {''open'', ''high'', ''low'', ''close''}. \<exists>label.
            ?names r = Some label
            \<and> \<not> (\<exists>c \<in> set (columns (obj self)). lower c = lower label)
            \<and> plot st self pt dv ok vk oak vak fig lk h
                = (Inl (MissingColumnError (lower label)), h))"
  proof (intro impI, elim conjE)
    assume d: "\<forall>r \<in> {''open'', ''high'', ''low'', ''close'', ''volume''}. ?names r \<noteq> None"
      and m: "\<exists>r \<in> {''open'', ''high'', ''low'', ''close''}. \<exists>label.
            ?names r = Some label
            \<and> \<not> (\<exists>c \<in> set (columns (obj self)). lower c = lower label)"
    from d obtain vl where "?names ''volume'' = Some vl" by auto
    then have "\<exists>b. shown st self dv = Inr b"
      by (cases dv) (simp_all add: resolve_display_volume_def)
    then obtain b where b: "shown st self dv = Inr b" by blast
    from m obtain r label where r: "r \<in> {''open'', ''high'', ''low'', ''close''}"
      and l: "?names r = Some label" and n: "lower label \<notin> set ?dfc"
      unfolding in_df_column_names by blast
    from l n have "role_index st self r = Inl (MissingColumnError (lower label))"
      by (simp add: column_index_Inl_iff)
    with r have "role_index st self ''open'' = Inl (MissingColumnError (lower label))
         \<or> role_index st self ''high'' = Inl (MissingColumnError (lower label))
         \<or> role_index st self ''low'' = Inl (MissingColumnError (lower label))
         \<or> role_index st self ''close'' = Inl (MissingColumnError (lower label))"
      by auto
    from plot_raises_required [OF b this] obtain e where
      p: "plot st self pt dv ok vk oak vak fig lk h = (Inl e, h)"
      and e: "role_index st self ''open'' = Inl e \<or> role_index st self ''high'' = Inl e
         \<or> role_index st self ''low'' = Inl e \<or> role_index st self ''close'' = Inl e"
      by blast
    from e obtain r' where r': "r' \<in> {''open'', ''high'', ''low'', ''close''}"
      and e': "role_index st self r' = Inl e" by auto
    from r' d have "?names r' \<noteq> None" by auto
    with e' obtain label' where "?names r' = Some label'" "lower label' \<notin> set ?dfc"
      "e = MissingColumnError (lower label')"
      unfolding column_index_Inl_iff by auto
    with p r' show "\<exists>r \<in> {''open'', ''high'', ''low'', ''close''}. \<exists>label.
            ?names r = Some label
            \<and> \<not> (\<exists>c \<in> set (columns (obj self)). lower c = lower label)
            \<and> plot st self pt dv ok vk oak vak fig lk h
                = (Inl (MissingColumnError (lower label)), h)"
      unfolding in_df_column_names [symmetric] by blast
  qed
  have 4: "(\<forall>r \<in> {''open'', ''high'', ''low'', ''close''}. \<exists>label.
         ?names r = Some label
         \<and> (\<exists>c \<in> set (columns (obj self)). lower c = lower label))
      \<and> (\<exists>label. ?names ''volume'' = Some label
            \<and> \<not> (\<exists>c \<in> set (columns (obj self)). lower c = lower label))
      \<and> dv \<noteq> Some True
      \<and> (\<exists>x. resolve_plot_type st pt = Inr x)
    \<longrightarrow> (\<exists>a h'. plot st self pt dv ok vk oak vak fig lk h = (Inr a, h'))"
  proof (intro impI, elim conjE exE)
    fix vlabel x
    assume d: "\<forall>r \<in> {''open'', ''high'', ''low'', ''close''}. \<exists>label.
         ?names r = Some label
         \<and> (\<exists>c \<in> set (columns (obj self)). lower c = lower label)"
      and v: "?names ''volume'' = Some vlabel"
      and nv: "\<not> (\<exists>c \<in> set (columns (obj self)). lower c = lower vlabel)"
      and dv: "dv \<noteq> Some True"
      and x: "resolve_plot_type st pt = Inr x"
    from v nv dv have b: "shown st self dv = Inr False"
      by (cases dv) (auto simp: resolve_display_volume_def in_df_column_names)
    have ex: "\<exists>i. role_index st self r = Inr i"
      if "r \<in> {''open'', ''high'', ''low'', ''close''}" for r
    proof -
      from d that obtain label where "?names r = Some label" "lower label \<in> set ?dfc"
        unfolding in_df_column_names by blast
      then show ?thesis by (rule column_index_Inr_ex)
    qed
    from ex [of "''open''"] obtain io where io: "role_index st self ''open'' = Inr io" by auto
    from ex [of "''high''"] obtain ih where ih: "role_index st self ''high'' = Inr ih" by auto
    from ex [of "''low''"] obtain il where il: "role_index st self ''low'' = Inr il" by auto
    from ex [of "''close''"] obtain ic where ic: "role_index st self ''close'' = Inr ic" by auto
    show "\<exists>a h'. plot st self pt dv ok vk oak vak fig lk h = (Inr a, h')"
      by (rule plot_returns [OF b io ih il ic x]) simp
  qed
  from 1 2 3 4 show ?thesis by blast
qed

theorem column_resolution_witness:
  "fst (plot ex_settings ex_self None None None None None None None [] []) = Inr 0
   \<and> role_index ex_settings ex_self ''open'' = Inr 1
   \<and> lower (columns (obj ex_self) ! 1) = lower ''Open''
   \<and> column_index [''open'' \<mapsto> ''oPeN''] (df_column_names ex_frame) ''open'' = Inr 1
   \<and> plot ex_settings ex_self_no_close None None None None None None None [] []
       = (Inl (MissingColumnError ''close''), [])
   \<and> fst (plot ex_settings ex_self_no_volume None None None None None None None [] [])
       = Inr 0"
proof -
  let ?P = "plot ex_settings ex_self None None None None None None None [] []"
  \<comment> \<open>first conjunct: a call that returns\<close>
  have p: "fst ?P = Inr 0" by code_simp
  then have p': "?P = (Inr 0, snd ?P)" by (simp add: prod_eq_iff)
  have i1: "role_index ex_settings ex_self ''open'' = Inr 1" by code_simp
  have mem: "''open'' \<in> {''open'', ''high'', ''low'', ''close''}" by simp
  note t1 = column_resolution [where st = ex_settings and self = ex_self and pt = None
      and dv = None and ok = None and vk = None and oak = None and vak = None
      and fig = None and lk = "[]" and h = "[]" and a = 0 and h' = "snd ?P"
      and role = "''open''"]
  from t1 [THEN conjunct1, THEN mp, OF conjI [OF p' mem]]
  obtain label i where "resolve_column_names ex_settings ex_self ''open'' = Some label"
    "role_index ex_settings ex_self ''open'' = Inr i"
    "lower (columns (obj ex_self) ! i) = lower label"
    by (elim exE conjE)
  with i1 have c1: "lower (columns (obj ex_self) ! 1) = lower ''Open''"
    by (simp add: ex_names ex_cfg)
  \<comment> \<open>second conjunct: another casing of the label\<close>
  have l: "lower ''Open'' = lower ''oPeN''" by code_simp
  have i1': "column_index (cfg_column_names ex_settings) (df_column_names ex_frame) ''open''
      = Inr 1" by code_simp
  have n': "[''open'' \<mapsto> ''oPeN''] ''open'' = Some ''oPeN''" by simp
  have m: "map lower (columns ex_frame) = map lower (columns ex_frame)" by (rule refl)
  note t2 = column_resolution [where names = "cfg_column_names ex_settings"
      and names' = "[''open'' \<mapsto> ''oPeN'']" and role = "''open''" and l = "''Open''"
      and l' = "''oPeN''" and df = ex_frame and df' = ex_frame]
  from t2 [THEN conjunct2, THEN conjunct1, THEN mp,
      OF conjI [OF ex_cfg(1) conjI [OF n' conjI [OF l m]]]] i1'
  have c2:
    "column_index [''open'' \<mapsto> ''oPeN''] (df_column_names ex_frame) ''open'' = Inr 1"
    by simp
  \<comment> \<open>third conjunct: no column matches the close label\<close>
  have all5: "\<forall>r \<in> {''open'', ''high'', ''low'', ''close'', ''volume''}.
      resolve_column_names ex_settings ex_self_no_close r \<noteq> None"
    by (simp add: ex_names ex_cfg)
  have noclose: "\<not> (\<exists>c \<in> set (columns (obj ex_self_no_close)). lower c = lower ''Close'')"
    by code_simp
  have e3: "plot ex_settings ex_self_no_close None None None None None None None [] []
       = (Inl (MissingColumnError ''close''), [])" by code_simp
  have some3: "\<exists>r \<in> {''open'', ''high'', ''low'', ''close''}. \<exists>label.
            resolve_column_names ex_settings ex_self_no_close r = Some label
            \<and> \<not> (\<exists>c \<in> set (columns (obj ex_self_no_close)). lower c = lower label)"
    using noclose by (simp add: ex_names ex_cfg)
  note t3 = column_resolution [where st = ex_settings and self = ex_self_no_close
      and pt = None and dv = None and ok = None and vk = None and oak = None and vak = None
      and fig = None and lk = "[]" and h = "[]"]
  note c3' = t3 [THEN conjunct2, THEN conjunct2, THEN conjunct1, THEN mp,
      OF conjI [OF all5 some3]]
  \<comment> \<open>fourth conjunct: only the volume column is absent\<close>
  have f4: "\<exists>c \<in> set (columns (obj ex_self_no_volume)). lower c = lower ''Open''"
    by code_simp
  have f5: "\<exists>c \<in> set (columns (obj ex_self_no_volume)). lower c = lower ''High''"
    by code_simp
  have f6: "\<exists>c \<in> set (columns (obj ex_self_no_volume)). lower c = lower ''Low''"
    by code_simp
  have f7: "\<exists>c \<in> set (columns (obj ex_self_no_volume)). lower c = lower ''Close''"
    by code_simp
  have f8: "\<not> (\<exists>c \<in> set (columns (obj ex_self_no_volume)). lower c = lower ''Volume'')"
    by code_simp
  have pt: "resolve_plot_type ex_settings None = Inr (PStr ''OHLC'', Ohlc)" by code_simp
  have h4a: "\<forall>r \<in> {''open'', ''high'', ''low'', ''close''}. \<exists>label.
         resolve_column_names ex_settings ex_self_no_volume r = Some label
         \<and> (\<exists>c \<in> set (columns (obj ex_self_no_volume)). lower c = lower label)"
    using f4 f5 f6 f7 by (simp add: ex_names ex_cfg)
  have h4b: "\<exists>label. resolve_column_names ex_settings ex_self_no_volume ''volume'' = Some label
            \<and> \<not> (\<exists>c \<in> set (columns (obj ex_self_no_volume)). lower c = lower label)"
    using f8 by (simp add: ex_names ex_cfg)
  have h4c: "(None :: bool option) \<noteq> Some True" by simp
  have h4d: "\<exists>x. resolve_plot_type ex_settings None = Inr x" using pt by (rule exI)
  note t4 = column_resolution [where st = ex_settings and self = ex_self_no_volume
      and pt = None and dv = None and ok = None and vk = None and oak = None and vak = None
      and fig = None and lk = "[]" and h = "[]"]
  note c4' = t4 [THEN conjunct2, THEN conjunct2, THEN conjunct2, THEN mp,
      OF conjI [OF h4a conjI [OF h4b conjI [OF h4c h4d]]]]
  have c4:
    "fst (plot ex_settings ex_self_no_volume None None None None None None None [] []) = Inr 0"
    by code_simp
  show ?thesis
    using c3' c4' by (simp only: p i1 c1 c2 e3 c4 simp_thms)
qed

text \<open>
  The claim as it was written also said that the absence of the volume label alone never
  raises. It does when the caller passes \<open>display_volume=True\<close>: on a frame with the four
  price columns and no volume column, with the default plot type, every required role
  resolves and line 165 raises the missing-column error for \<open>volume\<close>.
\<close>

theorem volume_absent_explicit_True_raises:
  "role_index ex_settings ex_self_no_volume ''open'' = Inr 0
   \<and> role_index ex_settings ex_self_no_volume ''high'' = Inr 1
   \<and> role_index ex_settings ex_self_no_volume ''low'' = Inr 2
   \<and> role_index ex_settings ex_self_no_volume ''close'' = Inr 3
   \<and> resolve_plot_type ex_settings None = Inr (PStr ''OHLC'', Ohlc)
   \<and> ''volume'' \<notin> set (df_column_names (obj ex_self_no_volume))
   \<and> fst (plot ex_settings ex_self_no_volume None (Some True) None None None None None [] [])
       = Inl (MissingColumnError ''volume'')"
  by code_simp

section \<open>Several columns matching one role\<close>

text \<open>
  C10. When a role resolves to position \<open>i\<close>, the column at \<open>i\<close> matches the mapped label
  up to case and no column before \<open>i\<close> does: of several matching columns the first in
  column order is taken. This holds for every role, the volume included, and the traces
  that \<open>plot\<close> adds are built from the columns at exactly these positions.
\<close>

theorem first_match_in_column_order:
  "(role_index st self role = Inr i
    \<longrightarrow> (\<exists>label. resolve_column_names st self role = Some label
           \<and> i < length (columns (obj self))
           \<and> lower (columns (obj self) ! i) = lower label
           \<and> (\<forall>j<i. lower (columns (obj self) ! j) \<noteq> lower label)))
 \<and> (plot st self pt dv ok vk oak vak fig lk h = (Inr a, h')
      \<and> (\<forall>a0. fig = Some a0 \<longrightarrow> a0 < length h)
    \<longrightarrow> (\<exists>b io ih il ic iv name ctor.
            shown st self dv = Inr b
          \<and> role_index st self ''open'' = Inr io
          \<and> role_index st self ''high'' = Inr ih
          \<and> role_index st self ''low'' = Inr il
          \<and> role_index st self ''close'' = Inr ic
          \<and> (b \<longrightarrow> role_index st self ''volume'' = Inr iv)
          \<and> traces (h' ! a) =
              (case fig of None \<Rightarrow> [] | Some a0 \<Rightarrow> traces (h ! a0))
              @ (price_trace st self ctor name io ih il ic ok, placement b 1 (or_empty oak))
              # (if b then [(volume_trace st self io ic iv vk, placement b 2 (or_empty vak))]
                 else [])))"
proof -
  have 1: "role_index st self role = Inr i
    \<longrightarrow> (\<exists>label. resolve_column_names st self role = Some label
           \<and> i < length (columns (obj self))
           \<and> lower (columns (obj self) ! i) = lower label
           \<and> (\<forall>j<i. lower (columns (obj self) ! j) \<noteq> lower label))"
    using role_index_matches [of st self role i] by blast
  have 2: "plot st self pt dv ok vk oak vak fig lk h = (Inr a, h')
      \<and> (\<forall>a0. fig = Some a0 \<longrightarrow> a0 < length h)
    \<longrightarrow> (\<exists>b io ih il ic iv name ctor.
            shown st self dv = Inr b
          \<and> role_index st self ''open'' = Inr io
          \<and> role_index st self ''high'' = Inr ih
          \<and> role_index st self ''low'' = Inr il
          \<and> role_index st self ''close'' = Inr ic
          \<and> (b \<longrightarrow> role_index st self ''volume'' = Inr iv)
          \<and> traces (h' ! a) =
              (case fig of None \<Rightarrow> [] | Some a0 \<Rightarrow> traces (h ! a0))
              @ (price_trace st self ctor name io ih il ic ok, placement b 1 (or_empty oak))
              # (if b then [(volume_trace st self io ic iv vk, placement b 2 (or_empty vak))]
                 else []))"
  proof (intro impI, elim conjE)
    assume p: "plot st self pt dv ok vk oak vak fig lk h = (Inr a, h')"
      and v: "\<forall>a0. fig = Some a0 \<longrightarrow> a0 < length h"
    from plot_success_parts [OF p v] show "\<exists>b io ih il ic iv name ctor.
            shown st self dv = Inr b
          \<and> role_index st self ''open'' = Inr io
          \<and> role_index st self ''high'' = Inr ih
          \<and> role_index st self ''low'' = Inr il
          \<and> role_index st self ''close'' = Inr ic
          \<and> (b \<longrightarrow> role_index st self ''volume'' = Inr iv)
          \<and> traces (h' ! a) =
              (case fig of None \<Rightarrow> [] | Some a0 \<Rightarrow> traces (h ! a0))
              @ (price_trace st self ctor name io ih il ic ok, placement b 1 (or_empty oak))
              # (if b then [(volume_trace st self io ic iv vk, placement b 2 (or_empty vak))]
                 else [])"
      by blast
  qed
  from 1 2 show ?thesis by (rule conjI)
qed

theorem first_match_in_column_order_witness:
  "role_index ex_settings ex_self ''open'' = Inr 1
   \<and> lower (columns (obj ex_self) ! 1) = lower ''Open''
   \<and> lower (columns (obj ex_self) ! 2) = lower ''Open''
   \<and> lower (columns (obj ex_self) ! 0) \<noteq> lower ''Open''
   \<and> role_index ex_settings ex_self ''volume'' = Inr 6
   \<and> fst (plot ex_settings ex_self None None None None None None (Some 0) [] ex_store) = Inr 0
   \<and> 0 < length ex_store"
proof -
  let ?P = "plot ex_settings ex_self None None None None None None (Some 0) [] ex_store"
  have i1: "role_index ex_settings ex_self ''open'' = Inr 1" by code_simp
  have i6: "role_index ex_settings ex_self ''volume'' = Inr 6" by code_simp
  have dup: "lower (columns (obj ex_self) ! 2) = lower ''Open''" by code_simp
  note t1 = first_match_in_column_order [where st = ex_settings and self = ex_self
      and role = "''open''" and i = 1]
  from t1 [THEN conjunct1, THEN mp, OF i1]
  obtain label where l: "resolve_column_names ex_settings ex_self ''open'' = Some label"
    and m: "lower (columns (obj ex_self) ! 1) = lower label"
    and f: "\<forall>j<1. lower (columns (obj ex_self) ! j) \<noteq> lower label"
    by (elim exE conjE)
  from l have label: "label = ''Open''" by (simp add: ex_names ex_cfg)
  from m label have c1: "lower (columns (obj ex_self) ! 1) = lower ''Open''" by simp
  from f label have c0: "lower (columns (obj ex_self) ! 0) \<noteq> lower ''Open''" by simp
  have p: "fst ?P = Inr 0" by code_simp
  then have p': "?P = (Inr 0, snd ?P)" by (simp add: prod_eq_iff)
  have len: "0 < length ex_store" by (simp add: ex_store_def)
  then have v: "\<forall>a0. Some (0::nat) = Some a0 \<longrightarrow> a0 < length ex_store" by simp
  note t2 = first_match_in_column_order [where st = ex_settings and self = ex_self
      and pt = None and dv = None and ok = None and vk = None and oak = None and vak = None
      and fig = "Some 0" and lk = "[]" and h = ex_store and a = 0 and h' = "snd ?P"]
  note c2 = t2 [THEN conjunct2, THEN mp, OF conjI [OF p' v]]
  show ?thesis
    using c2 c0 by (simp only: i1 i6 dup c1 p len simp_thms)
qed

section \<open>Whether the volume is displayed\<close>



section \<open>The panels of a new figure\<close>

text \<open>
  C6. When no figure is passed and \<open>plot\<close> returns, the figure it made is new in the
  store; with the volume hidden it is a plain figure, a single panel; with the volume
  displayed it is a grid of two rows and one column with shared x axes, vertical spacing
  0 and row heights 0.7 and 0.3.
\<close>

theorem fresh_figure_panels:
  assumes "plot st self pt dv ok vk oak vak None lk h = (Inr a, h')"
  shows "\<exists>v. shown st self dv = Inr v
     \<and> a = length h \<and> length h' = Suc (length h)
     \<and> (\<not> v \<longrightarrow> grid (h' ! a) = None \<and> panels (h' ! a) = 1)
     \<and> (v \<longrightarrow> grid (h' ! a) =
                 Some \<lparr>rows = 2, ncols = 1, shared_xaxes = True, vertical_spacing = 0,
                       row_heights = [7 / 10, 3 / 10]\<rparr>
              \<and> panels (h' ! a) = 2)"
proof -
  have v: "\<forall>a0. (None :: nat option) = Some a0 \<longrightarrow> a0 < length h" by simp
  from plot_success_parts [OF assms v]
  obtain v where s: "shown st self dv = Inr v"
    and a: "a = length h" and l: "length h' = Suc (length h)"
    and g: "grid (h' ! a) =
          (if v then Some \<lparr>rows = 2, ncols = 1, shared_xaxes = True,
                           vertical_spacing = 0, row_heights = [7 / 10, 3 / 10]\<rparr>
           else None)"
    by auto
  from g have "\<not> v \<longrightarrow> grid (h' ! a) = None \<and> panels (h' ! a) = 1"
    by (simp add: panels_def)
  moreover from g have "v \<longrightarrow> grid (h' ! a) =
                 Some \<lparr>rows = 2, ncols = 1, shared_xaxes = True, vertical_spacing = 0,
                       row_heights = [7 / 10, 3 / 10]\<rparr>
              \<and> panels (h' ! a) = 2"
    by (simp add: panels_def)
  ultimately show ?thesis using s a l by blast
qed

theorem fresh_figure_panels_witness:
  "fst (plot ex_settings ex_self None None None None None None None [] []) = Inr 0
   \<and> panels (snd (plot ex_settings ex_self None None None None None None None [] []) ! 0) = 2"
proof -
  let ?P = "plot ex_settings ex_self None None None None None None None [] []"
  have p': "?P = (Inr 0, snd ?P)" using ex_plot_fresh by (simp add: prod_eq_iff)
  from fresh_figure_panels [OF p']
  obtain v where s: "shown ex_settings ex_self None = Inr v"
    and g: "v \<longrightarrow> grid (snd ?P ! 0) =
                 Some \<lparr>rows = 2, ncols = 1, shared_xaxes = True, vertical_spacing = 0,
                       row_heights = [7 / 10, 3 / 10]\<rparr>
              \<and> panels (snd ?P ! 0) = 2"
    by (elim exE conjE)
  from s have "v" by (simp add: ex_shown)
  with g have "panels (snd ?P ! 0) = 2" by simp
  with ex_plot_fresh show ?thesis by (rule conjI)
qed

section \<open>The layout, and which figure is returned\<close>

text \<open>
  C7. When a figure is passed (a valid reference) and \<open>plot\<close> returns, it returns that
  same reference, no figure is added to the store, every other figure is untouched, and
  the figure's layout is its old layout with only the caller's layout options merged in:
  no baseline is applied. When no figure is passed and \<open>plot\<close> returns, it returns the
  reference of a new figure, the figures already in the store are untouched, and the new
  figure's layout is the caller's options merged over a base that holds the baseline:
  legend shown, gridlines on the x axis with the range slider off, gridlines on the y
  axis, and, when the volume is displayed, gridlines on the second x and y axes and a bar
  gap of 0.
\<close>

theorem layout_defaults_and_identity:
  "(plot st self pt dv ok vk oak vak (Some a0) lk h = (Inr a, h') \<and> a0 < length h
    \<longrightarrow> a = a0 \<and> length h' = length h
        \<and> (\<forall>i<length h. i \<noteq> a0 \<longrightarrow> h' ! i = h ! i)
        \<and> layout (h' ! a) = merge_dicts (layout (h ! a0)) lk)
 \<and> (plot st self pt dv ok vk oak vak None lk h = (Inr a, h')
    \<longrightarrow> a = length h \<and> length h' = Suc (length h)
        \<and> (\<forall>i<length h. h' ! i = h ! i)
        \<and> (\<exists>v base.
              shown st self dv = Inr v
            \<and> base =
                (if v then merge_dicts (merge_dicts (subplots_layout st) baseline_layout)
                                       baseline_volume_layout
                 else merge_dicts (figure_layout st) baseline_layout)
            \<and> layout (h' ! a) = merge_dicts base lk
            \<and> map_of base ''showlegend'' = Some (PBool True)
            \<and> (\<exists>d. map_of base ''xaxis'' = Some (PDict d)
                    \<and> map_of d ''showgrid'' = Some (PBool True)
                    \<and> map_of d ''rangeslider_visible'' = Some (PBool False))
            \<and> (\<exists>d. map_of base ''yaxis'' = Some (PDict d)
                    \<and> map_of d ''showgrid'' = Some (PBool True))
            \<and> (v \<longrightarrow> (\<exists>d. map_of base ''xaxis2'' = Some (PDict d)
                            \<and> map_of d ''showgrid'' = Some (PBool True))
                    \<and> (\<exists>d. map_of base ''yaxis2'' = Some (PDict d)
                            \<and> map_of d ''showgrid'' = Some (PBool True))
                    \<and> map_of base ''bargap'' = Some (PInt 0))))"
proof -
  have 1: "plot st self pt dv ok vk oak vak (Some a0) lk h = (Inr a, h') \<and> a0 < length h
    \<longrightarrow> a = a0 \<and> length h' = length h
        \<and> (\<forall>i<length h. i \<noteq> a0 \<longrightarrow> h' ! i = h ! i)
        \<and> layout (h' ! a) = merge_dicts (layout (h ! a0)) lk"
  proof (intro impI, elim conjE)
    assume p: "plot st self pt dv ok vk oak vak (Some a0) lk h = (Inr a, h')"
      and lt: "a0 < length h"
    from lt have v: "\<forall>a1. Some a0 = Some a1 \<longrightarrow> a1 < length h" by simp
    from plot_success_parts [OF p v]
    show "a = a0 \<and> length h' = length h
        \<and> (\<forall>i<length h. i \<noteq> a0 \<longrightarrow> h' ! i = h ! i)
        \<and> layout (h' ! a) = merge_dicts (layout (h ! a0)) lk"
      by auto
  qed
  have 2: "plot st self pt dv ok vk oak vak None lk h = (Inr a, h')
    \<longrightarrow> a = length h \<and> length h' = Suc (length h)
        \<and> (\<forall>i<length h. h' ! i = h ! i)
        \<and> (\<exists>v base.
              shown st self dv = Inr v
            \<and> base =
                (if v then merge_dicts (merge_dicts (subplots_layout st) baseline_layout)
                                       baseline_volume_layout
                 else merge_dicts (figure_layout st) baseline_layout)
            \<and> layout (h' ! a) = merge_dicts base lk
            \<and> map_of base ''showlegend'' = Some (PBool True)
            \<and> (\<exists>d. map_of base ''xaxis'' = Some (PDict d)
                    \<and> map_of d ''showgrid'' = Some (PBool True)
                    \<and> map_of d ''rangeslider_visible'' = Some (PBool False))
            \<and> (\<exists>d. map_of base ''yaxis'' = Some (PDict d)
                    \<and> map_of d ''showgrid'' = Some (PBool True))
            \<and> (v \<longrightarrow> (\<exists>d. map_of base ''xaxis2'' = Some (PDict d)
                            \<and> map_of d ''showgrid'' = Some (PBool True))
                    \<and> (\<exists>d. map_of base ''yaxis2'' = Some (PDict d)
                            \<and> map_of d ''showgrid'' = Some (PBool True))
                    \<and> map_of base ''bargap'' = Some (PInt 0)))"
  proof (intro impI)
    assume p: "plot st self pt dv ok vk oak vak None lk h = (Inr a, h')"
    have v: "\<forall>a0. (None :: nat option) = Some a0 \<longrightarrow> a0 < length h" by simp
    define base where "base v =
        (if v then merge_dicts (merge_dicts (subplots_layout st) baseline_layout)
                               baseline_volume_layout
         else merge_dicts (figure_layout st) baseline_layout)" for v
    from plot_success_parts [OF p v]
    obtain v where s: "shown st self dv = Inr v"
      and a: "a = length h" and l: "length h' = Suc (length h)"
      and o: "\<forall>i<length h. i \<noteq> a \<longrightarrow> h' ! i = h ! i"
      and ly: "layout (h' ! a) = merge_dicts (base v) lk"
      unfolding base_def by auto
    from o a have o': "\<forall>i<length h. h' ! i = h ! i" by simp
    have b1: "map_of (base v) ''showlegend'' = Some (PBool True)"
      by (simp add: base_def baseline_applied(1) baseline_volume_applied(4))
    have b2: "\<exists>d. map_of (base v) ''xaxis'' = Some (PDict d)
                    \<and> map_of d ''showgrid'' = Some (PBool True)
                    \<and> map_of d ''rangeslider_visible'' = Some (PBool False)"
      using baseline_xaxis [of "subplots_layout st"] baseline_xaxis [of "figure_layout st"]
      by (simp add: base_def baseline_volume_applied(5))
    have b3: "\<exists>d. map_of (base v) ''yaxis'' = Some (PDict d)
                    \<and> map_of d ''showgrid'' = Some (PBool True)"
      using baseline_applied(4) [of "subplots_layout st"]
        baseline_applied(4) [of "figure_layout st"]
      by (simp add: base_def baseline_volume_applied(6))
    have b4: "v \<longrightarrow> (\<exists>d. map_of (base v) ''xaxis2'' = Some (PDict d)
                            \<and> map_of d ''showgrid'' = Some (PBool True))
                    \<and> (\<exists>d. map_of (base v) ''yaxis2'' = Some (PDict d)
                            \<and> map_of d ''showgrid'' = Some (PBool True))
                    \<and> map_of (base v) ''bargap'' = Some (PInt 0)"
      using baseline_volume_applied(1-3)
        [of "merge_dicts (subplots_layout st) baseline_layout"]
      by (simp add: base_def)
    from s ly b1 b2 b3 b4 base_def [of v]
    have "\<exists>v base.
              shown st self dv = Inr v
            \<and> base =
                (if v then merge_dicts (merge_dicts (subplots_layout st) baseline_layout)
                                       baseline_volume_layout
                 else merge_dicts (figure_layout st) baseline_layout)
            \<and> layout (h' ! a) = merge_dicts base lk
            \<and> map_of base ''showlegend'' = Some (PBool True)
            \<and> (\<exists>d. map_of base ''xaxis'' = Some (PDict d)
                    \<and> map_of d ''showgrid'' = Some (PBool True)
                    \<and> map_of d ''rangeslider_visible'' = Some (PBool False))
            \<and> (\<exists>d. map_of base ''yaxis'' = Some (PDict d)
                    \<and> map_of d ''showgrid'' = Some (PBool True))
            \<and> (v \<longrightarrow> (\<exists>d. map_of base ''xaxis2'' = Some (PDict d)
                            \<and> map_of d ''showgrid'' = Some (PBool True))
                    \<and> (\<exists>d. map_of base ''yaxis2'' = Some (PDict d)
                            \<and> map_of d ''showgrid'' = Some (PBool True))
                    \<and> map_of base ''bargap'' = Some (PInt 0))"
      by blast
    with a l o' show "a = length h \<and> length h' = Suc (length h)
        \<and> (\<forall>i<length h. h' ! i = h ! i)
        \<and> (\<exists>v base.
              shown st self dv = Inr v
            \<and> base =
                (if v then merge_dicts (merge_dicts (subplots_layout st) baseline_layout)
                                       baseline_volume_layout
                 else merge_dicts (figure_layout st) baseline_layout)
            \<and> layout (h' ! a) = merge_dicts base lk
            \<and> map_of base ''showlegend'' = Some (PBool True)
            \<and> (\<exists>d. map_of base ''xaxis'' = Some (PDict d)
                    \<and> map_of d ''showgrid'' = Some (PBool True)
                    \<and> map_of d ''rangeslider_visible'' = Some (PBool False))
            \<and> (\<exists>d. map_of base ''yaxis'' = Some (PDict d)
                    \<and> map_of d ''showgrid'' = Some (PBool True))
            \<and> (v \<longrightarrow> (\<exists>d. map_of base ''xaxis2'' = Some (PDict d)
                            \<and> map_of d ''showgrid'' = Some (PBool True))
                    \<and> (\<exists>d. map_of base ''yaxis2'' = Some (PDict d)
                            \<and> map_of d ''showgrid'' = Some (PBool True))
                    \<and> map_of base ''bargap'' = Some (PInt 0)))"
      by blast
  qed
  from 1 2 show ?thesis by (rule conjI)
qed

theorem layout_defaults_and_identity_witness:
  "0 < length ex_store
   \<and> fst (plot ex_settings ex_self None None None None None None (Some 0)
            [(''title'', PStr ''new'')] ex_store) = Inr 0
   \<and> layout (snd (plot ex_settings ex_self None None None None None None (Some 0)
                    [(''title'', PStr ''new'')] ex_store) ! 0)
       = merge_dicts (layout (ex_store ! 0)) [(''title'', PStr ''new'')]
   \<and> fst (plot ex_settings ex_self None None None None None None None [] []) = Inr 0
   \<and> length (snd (plot ex_settings ex_self None None None None None None None [] [])) = Suc 0"
proof -
  let ?S = "plot ex_settings ex_self None None None None None None (Some 0)
              [(''title'', PStr ''new'')] ex_store"
  let ?F = "plot ex_settings ex_self None None None None None None None [] []"
  have len: "0 < length ex_store" by (simp add: ex_store_def)
  have s: "fst ?S = Inr 0" by code_simp
  then have s': "?S = (Inr 0, snd ?S)" by (simp add: prod_eq_iff)
  have f': "?F = (Inr 0, snd ?F)" using ex_plot_fresh by (simp add: prod_eq_iff)
  note t1 = layout_defaults_and_identity [where st = ex_settings and self = ex_self
      and pt = None and dv = None and ok = None and vk = None and oak = None and vak = None
      and ?a0.0 = 0 and lk = "[(''title'', PStr ''new'')]" and h = ex_store and a = 0
      and h' = "snd ?S"]
  note c1 = t1 [THEN conjunct1, THEN mp, OF conjI [OF s' len]]
  note l1 = c1 [THEN conjunct2, THEN conjunct2, THEN conjunct2]
  note t2 = layout_defaults_and_identity [where st = ex_settings and self = ex_self
      and pt = None and dv = None and ok = None and vk = None and oak = None and vak = None
      and lk = "[]" and h = "[]" and a = 0 and h' = "snd ?F"]
  note c2 = t2 [THEN conjunct2, THEN mp, OF f']
  from c2 have l2: "length (snd ?F) = Suc 0" by simp
  show ?thesis
    by (simp only: len s l1 ex_plot_fresh l2 simp_thms)
qed

section \<open>Where the traces are placed\<close>

text \<open>
  C8. When the volume is displayed and \<open>plot\<close> returns, the figure has received exactly
  two traces, in this order: the price trace (the trace built by the resolved constructor
  from the open, high, low and close columns, with \<open>ohlc_kwargs\<close> merged in) with the
  placement \<open>merge_dicts(dict(row=1, col=1), ohlc_add_trace_kwargs)\<close>, and the volume
  trace (the \<open>go.Bar\<close> trace built from the volume column, with \<open>volume_kwargs\<close> merged
  in) with the placement \<open>merge_dicts(dict(row=2, col=1), volume_add_trace_kwargs)\<close>.
  The two traces are never the same trace, so the placements cannot be exchanged. Without
  placement options the placements are row 1, column 1 and row 2, column 1. A key the
  caller passes (in a dictionary, so with distinct keys) has the caller's value in the
  placement; a key the caller does not pass keeps its default.
\<close>

theorem trace_placement:
  "(plot st self pt dv ok vk oak vak fig lk h = (Inr a, h')
      \<and> (\<forall>a0. fig = Some a0 \<longrightarrow> a0 < length h)
      \<and> shown st self dv = Inr True
    \<longrightarrow> (\<exists>io ih il ic iv name ctor.
            role_index st self ''open'' = Inr io
          \<and> role_index st self ''high'' = Inr ih
          \<and> role_index st self ''low'' = Inr il
          \<and> role_index st self ''close'' = Inr ic
          \<and> role_index st self ''volume'' = Inr iv
          \<and> resolve_plot_type st pt = Inr (name, ctor)
          \<and> traces (h' ! a) =
              (case fig of None \<Rightarrow> [] | Some a0 \<Rightarrow> traces (h ! a0))
              @ [(price_trace st self ctor name io ih il ic ok,
                  placement True 1 (or_empty oak)),
                 (volume_trace st self io ic iv vk,
                  placement True 2 (or_empty vak))]))
 \<and> trace_type (price_trace st self ctor name io ih il ic ok) = ctor
 \<and> trace_type (volume_trace st self io ic iv vk) = Bar
 \<and> price_trace st self ctor name io ih il ic ok \<noteq> volume_trace st self io ic iv vk
 \<and> placement True r (or_empty None) = [(''row'', PInt r), (''col'', PInt 1)]
 \<and> (distinct (map fst kw) \<and> map_of kw k = Some v
    \<longrightarrow> map_of (placement True r (or_empty (Some kw))) k = Some v)
 \<and> (distinct (map fst kw) \<and> map_of kw k = None
    \<longrightarrow> map_of (placement True r (or_empty (Some kw))) k
        = map_of [(''row'', PInt r), (''col'', PInt 1)] k)"
proof -
  have 1: "plot st self pt dv ok vk oak vak fig lk h = (Inr a, h')
      \<and> (\<forall>a0. fig = Some a0 \<longrightarrow> a0 < length h)
      \<and> shown st self dv = Inr True
    \<longrightarrow> (\<exists>io ih il ic iv name ctor.
            role_index st self ''open'' = Inr io
          \<and> role_index st self ''high'' = Inr ih
          \<and> role_index st self ''low'' = Inr il
          \<and> role_index st self ''close'' = Inr ic
          \<and> role_index st self ''volume'' = Inr iv
          \<and> resolve_plot_type st pt = Inr (name, ctor)
          \<and> traces (h' ! a) =
              (case fig of None \<Rightarrow> [] | Some a0 \<Rightarrow> traces (h ! a0))
              @ [(price_trace st self ctor name io ih il ic ok,
                  placement True 1 (or_empty oak)),
                 (volume_trace st self io ic iv vk,
                  placement True 2 (or_empty vak))])"
  proof (intro impI, elim conjE)
    assume p: "plot st self pt dv ok vk oak vak fig lk h = (Inr a, h')"
      and v: "\<forall>a0. fig = Some a0 \<longrightarrow> a0 < length h"
      and s: "shown st self dv = Inr True"
    from plot_success_parts [OF p v]
    obtain b io ih il ic iv name ctor where
      b: "shown st self dv = Inr b"
      and r: "role_index st self ''open'' = Inr io" "role_index st self ''high'' = Inr ih"
        "role_index st self ''low'' = Inr il" "role_index st self ''close'' = Inr ic"
      and rv: "b \<longrightarrow> role_index st self ''volume'' = Inr iv"
      and rp: "resolve_plot_type st pt = Inr (name, ctor)"
      and t: "traces (h' ! a) =
          (case fig of None \<Rightarrow> [] | Some a0 \<Rightarrow> traces (h ! a0))
          @ (price_trace st self ctor name io ih il ic ok, placement b 1 (or_empty oak))
          # (if b then [(volume_trace st self io ic iv vk, placement b 2 (or_empty vak))]
             else [])"
      by (elim exE conjE)
    from b s have bt: "b = True" by simp
    from rv bt have rv': "role_index st self ''volume'' = Inr iv" by simp
    from t bt have t': "traces (h' ! a) =
              (case fig of None \<Rightarrow> [] | Some a0 \<Rightarrow> traces (h ! a0))
              @ [(price_trace st self ctor name io ih il ic ok,
                  placement True 1 (or_empty oak)),
                 (volume_trace st self io ic iv vk,
                  placement True 2 (or_empty vak))]"
      by simp
    show "\<exists>io ih il ic iv name ctor.
            role_index st self ''open'' = Inr io
          \<and> role_index st self ''high'' = Inr ih
          \<and> role_index st self ''low'' = Inr il
          \<and> role_index st self ''close'' = Inr ic
          \<and> role_index st self ''volume'' = Inr iv
          \<and> resolve_plot_type st pt = Inr (name, ctor)
          \<and> traces (h' ! a) =
              (case fig of None \<Rightarrow> [] | Some a0 \<Rightarrow> traces (h ! a0))
              @ [(price_trace st self ctor name io ih il ic ok,
                  placement True 1 (or_empty oak)),
                 (volume_trace st self io ic iv vk,
                  placement True 2 (or_empty vak))]"
      by (intro exI conjI) (rule r(1), rule r(2), rule r(3), rule r(4), rule rv', rule rp,
          rule t')
  qed
  have 2: "trace_type (price_trace st self ctor name io ih il ic ok) = ctor"
    by (simp add: update_def ohlc_trace_def)
  have 3: "trace_type (volume_trace st self io ic iv vk) = Bar"
    by (simp add: update_def volume_bar_def)
  have 4: "price_trace st self ctor name io ih il ic ok \<noteq> volume_trace st self io ic iv vk"
    by (rule price_trace_not_volume_trace)
  have 5: "placement True r (or_empty None) = [(''row'', PInt r), (''col'', PInt 1)]"
    by (simp add: placement_def or_empty_def)
  have 6: "distinct (map fst kw) \<and> map_of kw k = Some v
    \<longrightarrow> map_of (placement True r (or_empty (Some kw))) k = Some v"
  proof (intro impI, elim conjE)
    assume d: "distinct (map fst kw)" and m: "map_of kw k = Some v"
    have "\<not> (\<exists>b ov. map_of [(''row'', PInt r), (''col'', PInt 1)] k = Some (PDict b)
        \<and> v = PDict ov)"
      by auto
    with m have "map_of (merge_dicts [(''row'', PInt r), (''col'', PInt 1)] kw) k = Some v"
      by (auto simp: map_of_merge_dicts [OF d] split: option.splits pyval.splits)
    then show "map_of (placement True r (or_empty (Some kw))) k = Some v"
      by (simp add: placement_def or_empty_def)
  qed
  have 7: "distinct (map fst kw) \<and> map_of kw k = None
    \<longrightarrow> map_of (placement True r (or_empty (Some kw))) k
        = map_of [(''row'', PInt r), (''col'', PInt 1)] k"
  proof (intro impI, elim conjE)
    assume d: "distinct (map fst kw)" and m: "map_of kw k = None"
    from merge_dicts_absent [OF d m, of "[(''row'', PInt r), (''col'', PInt 1)]"]
    show "map_of (placement True r (or_empty (Some kw))) k
        = map_of [(''row'', PInt r), (''col'', PInt 1)] k"
      by (simp add: placement_def or_empty_def)
  qed
  show ?thesis
    by (intro conjI) (rule 1, rule 2, rule 3, rule 4, rule 5, rule 6, rule 7)
qed

theorem trace_placement_witness:
  "shown ex_settings ex_self None = Inr True
   \<and> fst (plot ex_settings ex_self None None None None None None None [] []) = Inr 0
   \<and> map (\<lambda>tw. (trace_type (fst tw), snd tw))
        (traces (snd (plot ex_settings ex_self None None None None None None None [] []) ! 0))
       = [(Ohlc, [(''row'', PInt 1), (''col'', PInt 1)]),
          (Bar, [(''row'', PInt 2), (''col'', PInt 1)])]
   \<and> distinct (map fst [(''row'', PInt 3), (''secondary_y'', PBool True)])
   \<and> map_of (placement True 2 (or_empty (Some [(''row'', PInt 3), (''secondary_y'', PBool True)])))
        ''row'' = Some (PInt 3)
   \<and> map_of (placement True 2 (or_empty (Some [(''row'', PInt 3), (''secondary_y'', PBool True)])))
        ''col'' = Some (PInt 1)"
proof -
  let ?F = "plot ex_settings ex_self None None None None None None None [] []"
  let ?kw = "[(''row'', PInt 3), (''secondary_y'', PBool True)]"
  have f': "?F = (Inr 0, snd ?F)" using ex_plot_fresh by (simp add: prod_eq_iff)
  have v: "\<forall>a0. (None :: nat option) = Some a0 \<longrightarrow> a0 < length ([] :: store)" by simp
  have d: "distinct (map fst ?kw)" by simp
  have m1: "map_of ?kw ''row'' = Some (PInt 3)" by simp
  have m2: "map_of ?kw ''col'' = None" by simp
  note t1 = trace_placement [where st = ex_settings and self = ex_self
      and pt = None and dv = None and ok = None and vk = None and oak = None and vak = None
      and fig = None and lk = "[]" and h = "[]" and a = 0 and h' = "snd ?F"
      and kw = ?kw and k = "''row''" and v = "PInt 3" and r = 2]
  note c1 = t1 [THEN conjunct1, THEN mp, OF conjI [OF f' conjI [OF v ex_shown(1)]]]
  note c6 = t1 [THEN conjunct2, THEN conjunct2, THEN conjunct2, THEN conjunct2,
      THEN conjunct2, THEN conjunct1, THEN mp, OF conjI [OF d m1]]
  note t2 = trace_placement [where kw = ?kw and k = "''col''" and r = 2]
  note c7 = t2 [THEN conjunct2, THEN conjunct2, THEN conjunct2, THEN conjunct2,
      THEN conjunct2, THEN conjunct2, THEN mp, OF conjI [OF d m2]]
  have c7': "map_of (placement True 2 (or_empty (Some ?kw))) ''col'' = Some (PInt 1)"
    unfolding c7 by simp
  have tr: "map (\<lambda>tw. (trace_type (fst tw), snd tw)) (traces (snd ?F ! 0))
       = [(Ohlc, [(''row'', PInt 1), (''col'', PInt 1)]),
          (Bar, [(''row'', PInt 2), (''col'', PInt 1)])]"
    by code_simp
  show ?thesis
    using c1 by (simp only: ex_shown ex_plot_fresh tr d c6 c7' simp_thms)
qed

section \<open>The colours of the volume bars\<close>

text \<open>
  C3. On a frame whose columns all have the index's length, when the volume is displayed
  and \<open>plot\<close> returns, the last trace of the figure is the bar trace built by \<open>go.Bar\<close>
  with the caller's \<open>volume_kwargs\<close> merged in (the built trace itself when none were
  passed). The built trace has one colour for each row: for \<open>delta\<close> the row's close minus
  its open, the colour is \<open>increasing\<close> when \<open>delta > 0\<close>, \<open>gray\<close> when \<open>delta = 0\<close> and
  \<open>decreasing\<close> when \<open>delta < 0\<close>, for any colour schema. Its name is \<open>Volume\<close>, its
  opacity 0.5 and its marker's line width 0. Prices are exact numbers here; a NaN, for
  which none of the three comparisons holds, is outside the model.
\<close>

theorem volume_bar_colors:
  assumes "wf_frame (obj self)"
    and "plot st self pt dv ok vk oak vak fig lk h = (Inr a, h')"
    and "\<forall>a0. fig = Some a0 \<longrightarrow> a0 < length h"
    and "shown st self dv = Inr True"
  shows "\<exists>io ic iv colors bar.
      role_index st self ''open'' = Inr io
    \<and> role_index st self ''close'' = Inr ic
    \<and> role_index st self ''volume'' = Inr iv
    \<and> bar = volume_bar (index (obj self)) (iloc (obj self) iv) colors
    \<and> last (traces (h' ! a)) = (update bar (or_empty vk), placement True 2 (or_empty vak))
    \<and> (vk = None \<longrightarrow> update bar (or_empty vk) = bar)
    \<and> length colors = length (index (obj self))
    \<and> (\<forall>i<length (index (obj self)).
          colors ! i =
            (let delta = iloc (obj self) ic ! i - iloc (obj self) io ! i in
             if delta > 0 then increasing (cfg_color_schema st)
             else if delta = 0 then gray (cfg_color_schema st)
             else decreasing (cfg_color_schema st)))
    \<and> trace_type bar = Bar
    \<and> map_of (props bar) ''name'' = Some (PStr ''Volume'')
    \<and> map_of (props bar) ''opacity'' = Some (PNum (1 / 2))
    \<and> map_of (props bar) ''marker''
        = Some (PDict [(''color'', PList colors), (''line_width'', PInt 0)])"
proof -
  let ?df = "obj self"
  let ?cs = "cfg_color_schema st"
  from plot_success_parts [OF assms(2,3)] assms(4)
  obtain io ih il ic iv name ctor where
    io: "role_index st self ''open'' = Inr io"
    and ic: "role_index st self ''close'' = Inr ic"
    and iv: "role_index st self ''volume'' = Inr iv"
    and t: "traces (h' ! a) =
          (case fig of None \<Rightarrow> [] | Some a0 \<Rightarrow> traces (h ! a0))
          @ (price_trace st self ctor name io ih il ic ok, placement True 1 (or_empty oak))
          # (if True then [(volume_trace st self io ic iv vk, placement True 2 (or_empty vak))]
             else [])"
    by auto
  define colors where
    "colors = marker_colors ?cs (iloc ?df iv) (iloc ?df io) (iloc ?df ic)"
  define bar where "bar = volume_bar (index ?df) (iloc ?df iv) colors"
  from t have l: "last (traces (h' ! a)) = (update bar (or_empty vk), placement True 2 (or_empty vak))"
    by (simp add: bar_def colors_def)
  have e: "vk = None \<longrightarrow> update bar (or_empty vk) = bar"
    by (simp add: update_empty)
  note n = length_iloc [OF assms(1) role_index_less]
  have len: "length colors = length (index ?df)"
    unfolding colors_def
    by (rule length_marker_colors [OF n [OF iv] n [OF io] n [OF ic]])
  have col: "\<forall>i<length (index ?df).
          colors ! i =
            (let delta = iloc ?df ic ! i - iloc ?df io ! i in
             if delta > 0 then increasing ?cs
             else if delta = 0 then gray ?cs
             else decreasing ?cs)"
    unfolding colors_def Let_def
    by (intro allI impI) (rule marker_colors_nth [OF n [OF iv] n [OF io] n [OF ic]])
  have p: "trace_type bar = Bar"
    "map_of (props bar) ''name'' = Some (PStr ''Volume'')"
    "map_of (props bar) ''opacity'' = Some (PNum (1 / 2))"
    "map_of (props bar) ''marker''
        = Some (PDict [(''color'', PList colors), (''line_width'', PInt 0)])"
    by (simp_all add: bar_def volume_bar_def)
  from io ic iv l e len col p bar_def show ?thesis by blast
qed

theorem volume_bar_colors_witness:
  "wf_frame (obj ex_self)
   \<and> shown ex_settings ex_self None = Inr True
   \<and> fst (plot ex_settings ex_self None None None None None None None [] []) = Inr 0
   \<and> map_of (props (fst (last (traces
         (snd (plot ex_settings ex_self None None None None None None None [] []) ! 0)))))
        ''marker''
       = Some (PDict [(''color'', PList [PStr ''green'', PStr ''silver'', PStr ''red'']),
                      (''line_width'', PInt 0)])"
proof -
  let ?F = "plot ex_settings ex_self None None None None None None None [] []"
  have wf: "wf_frame (obj ex_self)"
    by (simp add: wf_frame_def ex_self_def ex_frame_def)
  have f': "?F = (Inr 0, snd ?F)" using ex_plot_fresh by (simp add: prod_eq_iff)
  have v: "\<forall>a0. (None :: nat option) = Some a0 \<longrightarrow> a0 < length ([] :: store)" by simp
  note t = volume_bar_colors [OF wf f' v ex_shown(1)]
  have m: "map_of (props (fst (last (traces (snd ?F ! 0))))) ''marker''
       = Some (PDict [(''color'', PList [PStr ''green'', PStr ''silver'', PStr ''red'']),
                      (''line_width'', PInt 0)])"
    by code_simp
  show ?thesis
    using t by (simp only: wf ex_shown ex_plot_fresh m simp_thms)
qed

section \<open>The plot type\<close>

text \<open>
  C4. A string plot type is compared in lower case: one that lowers to \<open>ohlc\<close> gives the
  constructor \<open>go.Ohlc\<close> and the name \<open>OHLC\<close>, one that lowers to \<open>candlestick\<close> gives
  \<open>go.Candlestick\<close> and the name \<open>Candlestick\<close>, any other string raises the
  invalid-plot-type error; an unset plot type is the default of the settings. The
  constructor is called with that name, so when \<open>plot\<close> returns the price trace is the
  built-in kind built under its canonical name (with the caller's \<open>ohlc_kwargs\<close> merged
  in). When the required columns have resolved, so that line 130 is reached, and the
  string is neither, \<open>plot\<close> raises the error with no trace added to any figure: the
  figures of the store have the traces they had, and a figure made by this call has
  none.
\<close>

theorem plot_type_resolution:
  "(lower s = ''ohlc'' \<longrightarrow> resolve_plot_type st (Some (PlotName s)) = Inr (PStr ''OHLC'', Ohlc))
 \<and> (lower s = ''candlestick''
    \<longrightarrow> resolve_plot_type st (Some (PlotName s)) = Inr (PStr ''Candlestick'', Candlestick))
 \<and> (lower s \<noteq> ''ohlc'' \<and> lower s \<noteq> ''candlestick''
    \<longrightarrow> resolve_plot_type st (Some (PlotName s)) = Inl InvalidPlotTypeError)
 \<and> resolve_plot_type st None = resolve_plot_type st (Some (cfg_plot_type st))
 \<and> trace_type (ohlc_trace st plot_obj name x open_s high_s low_s close_s) = plot_obj
 \<and> map_of (props (ohlc_trace st plot_obj name x open_s high_s low_s close_s)) ''name''
     = Some name
 \<and> (plot st self (Some (PlotName s)) dv ok vk oak vak fig lk h = (Inr a, h')
      \<and> (\<forall>a0. fig = Some a0 \<longrightarrow> a0 < length h)
    \<longrightarrow> (lower s = ''ohlc'' \<or> lower s = ''candlestick'')
        \<and> (\<exists>io ih il ic where rest.
              traces (h' ! a) =
                (case fig of None \<Rightarrow> [] | Some a0 \<Rightarrow> traces (h ! a0))
                @ (price_trace st self
                     (if lower s = ''ohlc'' then Ohlc else Candlestick)
                     (PStr (if lower s = ''ohlc'' then ''OHLC'' else ''Candlestick''))
                     io ih il ic ok, where)
                # rest))
 \<and> (lower s \<noteq> ''ohlc'' \<and> lower s \<noteq> ''candlestick''
      \<and> shown st self dv = Inr v
      \<and> role_index st self ''open'' = Inr io
      \<and> role_index st self ''high'' = Inr ih
      \<and> role_index st self ''low'' = Inr il
      \<and> role_index st self ''close'' = Inr ic
    \<longrightarrow> (\<exists>h1. plot st self (Some (PlotName s)) dv ok vk oak vak fig lk h
                  = (Inl InvalidPlotTypeError, h1)
            \<and> (\<forall>i<length h. traces (h1 ! i) = traces (h ! i))
            \<and> (case fig of
                  None \<Rightarrow> length h1 = Suc (length h) \<and> traces (h1 ! length h) = []
                | Some a0 \<Rightarrow> length h1 = length h)))"
proof -
  have 1: "lower s = ''ohlc''
    \<longrightarrow> resolve_plot_type st (Some (PlotName s)) = Inr (PStr ''OHLC'', Ohlc)"
    by (simp add: resolve_plot_type_def)
  have 2: "lower s = ''candlestick''
    \<longrightarrow> resolve_plot_type st (Some (PlotName s)) = Inr (PStr ''Candlestick'', Candlestick)"
    by (simp add: resolve_plot_type_def)
  have 3: "lower s \<noteq> ''ohlc'' \<and> lower s \<noteq> ''candlestick''
    \<longrightarrow> resolve_plot_type st (Some (PlotName s)) = Inl InvalidPlotTypeError"
    by (simp add: resolve_plot_type_def)
  have 4: "resolve_plot_type st None = resolve_plot_type st (Some (cfg_plot_type st))"
    by (simp add: resolve_plot_type_def)
  have 5: "trace_type (ohlc_trace st plot_obj name x open_s high_s low_s close_s) = plot_obj"
    by (simp add: ohlc_trace_def)
  have 6: "map_of (props (ohlc_trace st plot_obj name x open_s high_s low_s close_s)) ''name''
     = Some name"
    by (simp add: ohlc_trace_def)
  have 7: "plot st self (Some (PlotName s)) dv ok vk oak vak fig lk h = (Inr a, h')
      \<and> (\<forall>a0. fig = Some a0 \<longrightarrow> a0 < length h)
    \<longrightarrow> (lower s = ''ohlc'' \<or> lower s = ''candlestick'')
        \<and> (\<exists>io ih il ic where rest.
              traces (h' ! a) =
                (case fig of None \<Rightarrow> [] | Some a0 \<Rightarrow> traces (h ! a0))
                @ (price_trace st self
                     (if lower s = ''ohlc'' then Ohlc else Candlestick)
                     (PStr (if lower s = ''ohlc'' then ''OHLC'' else ''Candlestick''))
                     io ih il ic ok, where)
                # rest)"
  proof (intro impI, elim conjE)
    assume p: "plot st self (Some (PlotName s)) dv ok vk oak vak fig lk h = (Inr a, h')"
      and v: "\<forall>a0. fig = Some a0 \<longrightarrow> a0 < length h"
    from plot_success_parts [OF p v]
    obtain b io ih il ic iv nm ctor where
      r: "resolve_plot_type st (Some (PlotName s)) = Inr (nm, ctor)"
      and t: "traces (h' ! a) =
          (case fig of None \<Rightarrow> [] | Some a0 \<Rightarrow> traces (h ! a0))
          @ (price_trace st self ctor nm io ih il ic ok, placement b 1 (or_empty oak))
          # (if b then [(volume_trace st self io ic iv vk, placement b 2 (or_empty vak))]
             else [])"
      by (elim exE conjE)
    from r have k: "lower s = ''ohlc'' \<or> lower s = ''candlestick''"
      by (simp add: resolve_plot_type_def split: if_splits)
    from r have c: "ctor = (if lower s = ''ohlc'' then Ohlc else Candlestick)"
      by (simp add: resolve_plot_type_def split: if_splits)
    from r have n: "nm = PStr (if lower s = ''ohlc'' then ''OHLC'' else ''Candlestick'')"
      by (simp add: resolve_plot_type_def split: if_splits)
    have "\<exists>io ih il ic where rest.
              traces (h' ! a) =
                (case fig of None \<Rightarrow> [] | Some a0 \<Rightarrow> traces (h ! a0))
                @ (price_trace st self
                     (if lower s = ''ohlc'' then Ohlc else Candlestick)
                     (PStr (if lower s = ''ohlc'' then ''OHLC'' else ''Candlestick''))
                     io ih il ic ok, where)
                # rest"
      by (intro exI) (rule t [unfolded c n])
    with k show "(lower s = ''ohlc'' \<or> lower s = ''candlestick'')
        \<and> (\<exists>io ih il ic where rest.
              traces (h' ! a) =
                (case fig of None \<Rightarrow> [] | Some a0 \<Rightarrow> traces (h ! a0))
                @ (price_trace st self
                     (if lower s = ''ohlc'' then Ohlc else Candlestick)
                     (PStr (if lower s = ''ohlc'' then ''OHLC'' else ''Candlestick''))
                     io ih il ic ok, where)
                # rest)"
      by (rule conjI)
  qed
  have 8: "lower s \<noteq> ''ohlc'' \<and> lower s \<noteq> ''candlestick''
      \<and> shown st self dv = Inr v
      \<and> role_index st self ''open'' = Inr io
      \<and> role_index st self ''high'' = Inr ih
      \<and> role_index st self ''low'' = Inr il
      \<and> role_index st self ''close'' = Inr ic
    \<longrightarrow> (\<exists>h1. plot st self (Some (PlotName s)) dv ok vk oak vak fig lk h
                  = (Inl InvalidPlotTypeError, h1)
            \<and> (\<forall>i<length h. traces (h1 ! i) = traces (h ! i))
            \<and> (case fig of
                  None \<Rightarrow> length h1 = Suc (length h) \<and> traces (h1 ! length h) = []
                | Some a0 \<Rightarrow> length h1 = length h))"
  proof (intro impI, elim conjE)
    assume n: "lower s \<noteq> ''ohlc''" "lower s \<noteq> ''candlestick''"
      and r: "shown st self dv = Inr v" "role_index st self ''open'' = Inr io"
        "role_index st self ''high'' = Inr ih" "role_index st self ''low'' = Inr il"
        "role_index st self ''close'' = Inr ic"
    from n have e: "resolve_plot_type st (Some (PlotName s)) = Inl InvalidPlotTypeError"
      by (simp add: resolve_plot_type_def)
    obtain a1 h1 where s: "set_up_figure st v fig lk h = (a1, h1)"
      by (cases "set_up_figure st v fig lk h")
    from plot_raises_plot_type [OF r e, of ok vk oak vak fig lk h] s
    have p: "plot st self (Some (PlotName s)) dv ok vk oak vak fig lk h
        = (Inl InvalidPlotTypeError, h1)" by simp
    from set_up_figure_traces [OF s]
    have q: "(\<forall>i<length h. traces (h1 ! i) = traces (h ! i))
            \<and> (case fig of
                  None \<Rightarrow> length h1 = Suc (length h) \<and> traces (h1 ! length h) = []
                | Some a0 \<Rightarrow> length h1 = length h)"
      by (cases fig) auto
    from p q have "plot st self (Some (PlotName s)) dv ok vk oak vak fig lk h
                  = (Inl InvalidPlotTypeError, h1)
            \<and> (\<forall>i<length h. traces (h1 ! i) = traces (h ! i))
            \<and> (case fig of
                  None \<Rightarrow> length h1 = Suc (length h) \<and> traces (h1 ! length h) = []
                | Some a0 \<Rightarrow> length h1 = length h)"
      by (rule conjI)
    then show "\<exists>h1. plot st self (Some (PlotName s)) dv ok vk oak vak fig lk h
                  = (Inl InvalidPlotTypeError, h1)
            \<and> (\<forall>i<length h. traces (h1 ! i) = traces (h ! i))
            \<and> (case fig of
                  None \<Rightarrow> length h1 = Suc (length h) \<and> traces (h1 ! length h) = []
                | Some a0 \<Rightarrow> length h1 = length h)"
      by (rule exI)
  qed
  show ?thesis
    by (intro conjI) (rule 1, rule 2, rule 3, rule 4, rule 5, rule 6, rule 7, rule 8)
qed

theorem plot_type_resolution_witness:
  "lower ''oHLc'' = ''ohlc''
   \<and> resolve_plot_type ex_settings (Some (PlotName ''oHLc'')) = Inr (PStr ''OHLC'', Ohlc)
   \<and> lower ''CandleStick'' = ''candlestick''
   \<and> fst (plot ex_settings ex_self (Some (PlotName ''CandleStick'')) None None None None None
            None [] []) = Inr 0
   \<and> lower ''line'' \<noteq> ''ohlc'' \<and> lower ''line'' \<noteq> ''candlestick''
   \<and> fst (plot ex_settings ex_self (Some (PlotName ''line'')) None None None None None
            None [] []) = Inl InvalidPlotTypeError"
proof -
  let ?C = "plot ex_settings ex_self (Some (PlotName ''CandleStick'')) None None None None None
              None [] []"
  let ?L = "plot ex_settings ex_self (Some (PlotName ''line'')) None None None None None
              None [] []"
  have l1: "lower ''oHLc'' = ''ohlc''" by code_simp
  have l2: "lower ''CandleStick'' = ''candlestick''" by code_simp
  have l3: "lower ''line'' \<noteq> ''ohlc''" by code_simp
  have l4: "lower ''line'' \<noteq> ''candlestick''" by code_simp
  note c1 = plot_type_resolution [where s = "''oHLc''" and st = ex_settings,
      THEN conjunct1, THEN mp, OF l1]
  have c: "fst ?C = Inr 0" by code_simp
  then have c': "?C = (Inr 0, snd ?C)" by (simp add: prod_eq_iff)
  have v: "\<forall>a0. (None :: nat option) = Some a0 \<longrightarrow> a0 < length ([] :: store)" by simp
  note t7 = plot_type_resolution [where s = "''CandleStick''" and st = ex_settings
      and self = ex_self and dv = None and ok = None and vk = None and oak = None
      and vak = None and fig = None and lk = "[]" and h = "[]" and a = 0 and h' = "snd ?C"]
  note c7 = t7 [THEN conjunct2, THEN conjunct2, THEN conjunct2, THEN conjunct2,
      THEN conjunct2, THEN conjunct2, THEN conjunct1, THEN mp, OF conjI [OF c' v]]
  note t8 = plot_type_resolution [where s = "''line''" and st = ex_settings
      and self = ex_self and dv = None and ok = None and vk = None and oak = None
      and vak = None and fig = None and lk = "[]" and h = "[]" and v = True
      and io = 1 and ih = 3 and il = 4 and ic = 5]
  note c8 = t8 [THEN conjunct2, THEN conjunct2, THEN conjunct2, THEN conjunct2,
      THEN conjunct2, THEN conjunct2, THEN conjunct2, THEN mp,
      OF conjI [OF l3 conjI [OF l4 conjI [OF ex_shown(1) conjI [OF ex_role_index(1)
        conjI [OF ex_role_index(2) conjI [OF ex_role_index(3) ex_role_index(4)]]]]]]]
  from c8 obtain h1 where "?L = (Inl InvalidPlotTypeError, h1)" by (elim exE conjE)
  then have l: "fst ?L = Inl InvalidPlotTypeError" by simp
  show ?thesis
    using c7 by (simp only: l1 c1 l2 c l3 l4 l simp_thms)
qed

section \<open>A trace class as plot type\<close>

text \<open>
  C5. A plot type that is not a string is called as the constructor, as the claim says.
  The claim also says that the call leaves the display name to the constructor. Line 149
  passes \<open>name=plot_type\<close> on every path, and on this path \<open>plot_type\<close> is still the
  trace class: the constructor receives itself as the name. Evaluated on the example
  frame with the class \<open>Scatter\<close>, the volume hidden.
\<close>

theorem custom_constructor_named_by_itself:
  "resolve_plot_type ex_settings (Some (PlotTrace (Custom ''Scatter'')))
     = Inr (PType (Custom ''Scatter''), Custom ''Scatter'')
   \<and> fst (plot ex_settings ex_self (Some (PlotTrace (Custom ''Scatter''))) (Some False)
            None None None None None [] []) = Inr 0
   \<and> traces (snd (plot ex_settings ex_self (Some (PlotTrace (Custom ''Scatter'')))
                    (Some False) None None None None None [] []) ! 0)
       = [(\<lparr>trace_type = Custom ''Scatter'',
            props =
              [(''x'', PList [PStr ''mon'', PStr ''tue'', PStr ''wed'']),
               (''open'', PList [PNum 10, PNum 11, PNum 12]),
               (''high'', PList [PNum 12, PNum 12, PNum 13]),
               (''low'', PList [PNum 9, PNum 10, PNum 10]),
               (''close'', PList [PNum 11, PNum 11, PNum 11]),
               (''name'', PType (Custom ''Scatter'')),
               (''increasing'', PDict [(''line'', PDict [(''color'', PStr ''green'')])]),
               (''decreasing'', PDict [(''line'', PDict [(''color'', PStr ''red'')])])]\<rparr>,
           [])]"
  by code_simp

end
